theory Spec2Isabelle
  imports Complex_Main
begin

section \<open>Numbers and strings\<close>

text \<open>
  The TypeScript type \<open>number\<close> is the type of IEEE 754 doubles.  Every finite
  double is a rational, so numbers are modelled by \<open>rat\<close>.  The arithmetic of the
  program is modelled twice: read as exact arithmetic (no rounding), and as the
  arithmetic of doubles, where the exact result of each \<open>+\<close>, \<open>-\<close>, \<open>*\<close> and \<open>/\<close> is
  rounded to the nearest double, a tie going to the even significand.  Comparison,
  \<open>Math.min\<close> and unary minus are exact on doubles.  \<open>NaN\<close> and the infinities are
  not represented; where the source divides, the model says explicitly what happens
  at a zero divisor.
\<close>

text \<open>
  A finite double is \<open>m * 2 ^ k\<close> for integers \<open>\<bar>m\<bar> < 2 ^ 53\<close> and \<open>- 1074 \<le> k\<close>.
  \<open>log2_floor n\<close> is the position of the leading bit of a positive integer,
  \<open>exponent x\<close> the integer \<open>e\<close> with \<open>2 ^ e \<le> \<bar>x\<bar> < 2 ^ (e + 1)\<close>, and the doubles
  around \<open>x\<close> are the multiples of \<open>2 ^ (e - 52)\<close>, or of \<open>2 ^ - 1074\<close> in the
  subnormal range.  (A result of magnitude \<open>2 ^ 1024\<close> or more is an infinity in
  the program; no operation modelled below can reach it from finite operands.)
\<close>

function log2_floor :: "int \<Rightarrow> int" where
  "log2_floor n = (if n < 2 then 0 else 1 + log2_floor (n div 2))"
  by pat_completeness auto
termination
  by (relation "measure nat") auto

declare log2_floor.simps [simp del]

definition pow2 :: "int \<Rightarrow> rat" where
  "pow2 k = (if 0 \<le> k then 2 ^ nat k else 1 / 2 ^ nat (- k))"

definition exponent :: "rat \<Rightarrow> int" where
  "exponent x =
     (case quotient_of \<bar>x\<bar> of (a, b) \<Rightarrow>
        (let e0 = log2_floor a - log2_floor b
         in if pow2 e0 \<le> \<bar>x\<bar> then e0 else e0 - 1))"

definition round_half_even :: "rat \<Rightarrow> int" where
  "round_half_even q =
     (let f = \<lfloor>q\<rfloor>; r = q - of_int f
      in if r < 1 / 2 then f else if 1 / 2 < r then f + 1
         else if even f then f else f + 1)"

definition round_double :: "rat \<Rightarrow> rat" where
  "round_double x =
     (if x = 0 then 0
      else (let k = max (exponent x - 52) (- 1074)
            in of_int (round_half_even (x / pow2 k)) * pow2 k))"

text \<open>
  Decimal rendering of a non-negative integer, as the template literal
  \<open>`Clip ${newClips.length + 1}`\<close> renders an array length.  \<open>digit_char\<close> is only
  applied to digits, that is to numbers below 10.
\<close>

definition digit_char :: "nat \<Rightarrow> char" where
  "digit_char d = ''0123456789'' ! d"

fun string_of_nat :: "nat \<Rightarrow> string" where
  "string_of_nat n =
     (if n < 10 then [digit_char n]
      else string_of_nat (n div 10) @ [digit_char (n mod 10)])"

section \<open>Data model\<close>

text \<open>\<open>interface ClipSegment\<close> of \<open>ClipCreator.tsx\<close>: a draft clip.\<close>

record ClipSegment =
  start :: rat
  duration :: rat
  title :: string

text \<open>
  The types \<open>Video\<close> and \<open>VideoClip\<close> of \<open>lib/supabase\<close>, with the fields
  the component reads (\<open>id\<close>, \<open>file_path\<close>, \<open>duration\<close>; \<open>id\<close>, \<open>title\<close>,
  \<open>start_time\<close>, \<open>duration\<close>).  Field names carry a prefix because record
  fields share one name space.
\<close>

record Video =
  v_id :: string
  v_file_path :: string
  v_duration :: rat

record VideoClip =
  c_id :: string
  c_title :: string
  c_start_time :: rat
  c_duration :: rat

text \<open>The \<open>useState\<close> cells of the component \<open>ClipCreator\<close>.\<close>

record ClipCreator =
  clips :: "ClipSegment list"
  clipDuration :: rat
  generating :: bool
  generatedClips :: "VideoClip list"
  exportingClipId :: "string option"
  errorMessage :: "string option"
  videoUrl :: string

section \<open>Segment planner\<close>

text \<open>
  The loop of \<open>autoGenerateClips\<close>:
  \<^verbatim>\<open>
    while (currentTime < video.duration) {
      const duration = Math.min(clipDuration, video.duration - currentTime);
      newClips.push({ start: currentTime, duration: duration,
                      title: `Clip ${newClips.length + 1}` });
      currentTime += duration;
    }
  \<close>
  The loop need not terminate, so it is a partial function: \<open>None\<close> stands
  for a run that never leaves the loop.  \<open>autoGenerateClips_loop\<close> reads the
  arithmetic as exact; \<open>autoGenerateClips_loop_double\<close> is the same loop in the
  arithmetic of doubles, with the subtraction and the addition rounded.
\<close>

partial_function (option) autoGenerateClips_loop ::
  "rat \<Rightarrow> rat \<Rightarrow> rat \<Rightarrow> ClipSegment list \<Rightarrow> ClipSegment list option" where
  "autoGenerateClips_loop video_duration clip_duration currentTime newClips =
     (if currentTime < video_duration then
        (let dur = min clip_duration (video_duration - currentTime) in
         autoGenerateClips_loop video_duration clip_duration (currentTime + dur)
           (newClips @ [\<lparr>start = currentTime, duration = dur,
                          title = ''Clip '' @ string_of_nat (length newClips + 1)\<rparr>]))
      else Some newClips)"

partial_function (option) autoGenerateClips_loop_double ::
  "rat \<Rightarrow> rat \<Rightarrow> rat \<Rightarrow> ClipSegment list \<Rightarrow> ClipSegment list option" where
  "autoGenerateClips_loop_double video_duration clip_duration currentTime newClips =
     (if currentTime < video_duration then
        (let dur = min clip_duration (round_double (video_duration - currentTime)) in
         autoGenerateClips_loop_double video_duration clip_duration
           (round_double (currentTime + dur))
           (newClips @ [\<lparr>start = currentTime, duration = dur,
                          title = ''Clip '' @ string_of_nat (length newClips + 1)\<rparr>]))
      else Some newClips)"


text \<open>The same function in the arithmetic of doubles.\<close>

definition autoGenerateClips_double :: "Video \<Rightarrow> ClipCreator \<Rightarrow> ClipCreator option" where
  "autoGenerateClips_double video s =
     map_option (\<lambda>newClips. s\<lparr>clips := newClips\<rparr>)
       (autoGenerateClips_loop_double (v_duration video) (clipDuration s) 0 [])"


text \<open>
  \<open>loadExistingClips\<close> and \<open>generateClips\<close> talk to the session provider and the
  record store.  Their calls are logged as effects, in the order in which they are
  issued; the answers of the collaborators are a parameter.
\<close>

record clip_row =
  row_video_id :: string
  row_title :: string
  row_file_path :: string
  row_start_time :: rat
  row_duration :: rat

datatype effect =
    Alert string
  | ConsoleError string
  | AuthGetUser
  | InsertClip clip_row
  | SelectClips string

record backend =
  current_user :: "string option"
  insert_error :: "clip_row \<Rightarrow> bool"
  select_clips :: "VideoClip list option"

definition loadExistingClips ::
  "backend \<Rightarrow> Video \<Rightarrow> ClipCreator \<Rightarrow> ClipCreator \<times> effect list" where
  "loadExistingClips b video s =
     (case select_clips b of
        None \<Rightarrow>
          (s\<lparr>errorMessage := Some ''Tidak bisa memuat klip yang sudah dibuat.''\<rparr>,
           [SelectClips (v_id video), ConsoleError ''Error loading clips:''])
      | Some data \<Rightarrow> (s\<lparr>generatedClips := data\<rparr>, [SelectClips (v_id video)]))"

definition insert_row :: "Video \<Rightarrow> ClipSegment \<Rightarrow> clip_row" where
  "insert_row video c =
     \<lparr>row_video_id = v_id video, row_title = title c, row_file_path = v_file_path video,
      row_start_time = start c, row_duration = duration c\<rparr>"

text \<open>
  \<open>generateClips\<close>.  The two guards return before \<open>setGenerating(true)\<close>.  After
  them, \<open>clips.map\<close> issues every insert before \<open>Promise.all\<close> is awaited, so all
  inserts are in the log even when one of them fails; a failure or a missing user
  reaches the \<open>catch\<close> block, and \<open>finally\<close> resets \<open>generating\<close>.
\<close>

definition generateClips ::
  "backend \<Rightarrow> Video \<Rightarrow> ClipCreator \<Rightarrow> ClipCreator \<times> effect list" where
  "generateClips b video s =
     (if clips s = [] then (s, [Alert ''Please add some clips first''])
      else if list_ex (\<lambda>c. duration c \<le> 0) (clips s)
        then (s, [Alert ''Clip duration must be greater than 0 seconds''])
      else
        (let s1 = s\<lparr>generating := True\<rparr> in
         case current_user b of
           None \<Rightarrow>
             (s1\<lparr>generating := False\<rparr>,
              [AuthGetUser, ConsoleError ''Error generating clips:'',
               Alert ''Failed to generate clips. Please try again.''])
         | Some user \<Rightarrow>
             (let rows = map (insert_row video) (clips s) in
              if list_ex (insert_error b) rows
              then (s1\<lparr>generating := False\<rparr>,
                    AuthGetUser # map InsertClip rows @
                    [ConsoleError ''Error generating clips:'',
                     Alert ''Failed to generate clips. Please try again.''])
              else
                (case loadExistingClips b video s1 of
                   (s2, es) \<Rightarrow>
                     (s2\<lparr>clips := [], generating := False\<rparr>,
                      AuthGetUser # map InsertClip rows @ es @
                      [Alert ''Clips created successfully!''])))))"

section \<open>Portrait export: the frame geometry\<close>

text \<open>
  The rectangle that \<open>drawFrame\<close> computes and passes to
  \<open>ctx.drawImage(sourceVideo, offsetX, offsetY, drawWidth, drawHeight)\<close>; the
  fields carry the parameter names of \<open>drawImage\<close>.
\<close>

record DrawRect =
  dx :: rat
  dy :: rat
  dWidth :: rat
  dHeight :: rat

text \<open>\<open>canvas.width = 720; canvas.height = 1280\<close>.\<close>

definition canvas_width :: rat where
  "canvas_width = 720"

definition canvas_height :: rat where
  "canvas_height = 1280"

text \<open>
  \<open>drawFrame_rect\<close> reads the arithmetic of lines 221 to 236 as exact.
  \<open>videoWidth\<close> and \<open>videoHeight\<close> are unsigned integers.  When one of them is 0 a
  quotient of the source has a zero divisor; JavaScript then computes an infinity
  or \<open>NaN\<close>, and \<open>drawImage\<close> draws nothing for such arguments: the result is
  \<open>None\<close>.
\<close>

definition drawFrame_rect :: "nat \<Rightarrow> nat \<Rightarrow> DrawRect option" where
  "drawFrame_rect videoWidth videoHeight =
     (if videoWidth = 0 \<or> videoHeight = 0 then None
      else
        (let sourceRatio = of_nat videoWidth / of_nat videoHeight;
             targetRatio = canvas_width / canvas_height
         in if sourceRatio > targetRatio then
              (let drawHeight = canvas_height;
                   drawWidth = of_nat videoWidth * (drawHeight / of_nat videoHeight);
                   offsetX = - (drawWidth - canvas_width) / 2
               in Some \<lparr>dx = offsetX, dy = 0, dWidth = drawWidth, dHeight = drawHeight\<rparr>)
            else
              (let drawWidth = canvas_width;
                   drawHeight = of_nat videoHeight * (drawWidth / of_nat videoWidth);
                   offsetY = - (drawHeight - canvas_height) / 2
               in Some \<lparr>dx = 0, dy = offsetY, dWidth = drawWidth, dHeight = drawHeight\<rparr>)))"

text \<open>
  The same computation in the arithmetic of doubles: each quotient, product and
  difference of lines 221 to 236 is rounded.  The sizes and the canvas dimensions
  are integers below \<open>2 ^ 32\<close> and are doubles as they stand.
\<close>

definition drawFrame_rect_double :: "nat \<Rightarrow> nat \<Rightarrow> DrawRect option" where
  "drawFrame_rect_double videoWidth videoHeight =
     (if videoWidth = 0 \<or> videoHeight = 0 then None
      else
        (let sourceRatio = round_double (of_nat videoWidth / of_nat videoHeight);
             targetRatio = round_double (canvas_width / canvas_height)
         in if sourceRatio > targetRatio then
              (let drawHeight = canvas_height;
                   drawWidth = round_double
                     (of_nat videoWidth * round_double (drawHeight / of_nat videoHeight));
                   offsetX = round_double (- round_double (drawWidth - canvas_width) / 2)
               in Some \<lparr>dx = offsetX, dy = 0, dWidth = drawWidth, dHeight = drawHeight\<rparr>)
            else
              (let drawWidth = canvas_width;
                   drawHeight = round_double
                     (of_nat videoHeight * round_double (drawWidth / of_nat videoWidth));
                   offsetY = round_double (- round_double (drawHeight - canvas_height) / 2)
               in Some \<lparr>dx = 0, dy = offsetY, dWidth = drawWidth, dHeight = drawHeight\<rparr>)))"

section \<open>Portrait export: one job\<close>

text \<open>
  What one invocation of \<open>exportPortraitClip\<close> observes of the browser and of the
  media: which interfaces exist, which container types the recorder supports, the
  intrinsic size of the video, and the tracks that \<open>canvas.captureStream()\<close> and
  \<open>sourceVideo.captureStream()\<close> return.  A track is an object; it is modelled by
  its identity.
\<close>

type_synonym track = nat

record environment =
  has_MediaRecorder :: bool
  has_captureStream :: bool
  has_context2d :: bool
  isTypeSupported :: "string \<Rightarrow> bool"
  videoWidth :: nat
  videoHeight :: nat
  canvasVideoTracks :: "track list"
  sourceVideoTracks :: "track list"
  sourceAudioTracks :: "track list"

definition preferredMimeTypes :: "string list" where
  "preferredMimeTypes =
     [''video/webm;codecs=vp9'', ''video/webm;codecs=vp8'', ''video/webm'']"

text \<open>
  The function is asynchronous.  Its state between two events is the \<^emph>\<open>job\<close>: the
  \<open>await\<close> at which it is suspended, the local variables of its closure
  (\<open>chunks\<close>, \<open>recordingStopped\<close>, the two streams, the recorder, the promise), and
  logs of the calls it has made on the browser objects.
\<close>

datatype phase = AwaitMetadata | AwaitSeeked | AwaitPlay | AwaitRecording | Returned

datatype recorder_state = Inactive | Recording

record blob =
  blob_parts :: "nat list"
  blob_type :: string

datatype promise = Pending | Resolved blob | Rejected

record job =
  job_env :: environment
  job_clip :: VideoClip
  pc :: phase
  sourceCurrentTime :: rat
  composedTracks :: "track list"
  sourceTracks :: "track list"
  mimeType :: "string option"
  recorder_state :: recorder_state
  recorder_start_calls :: nat
  recorder_stop_calls :: nat
  recorder_started_at :: "rat option"
  play_calls :: nat
  pause_calls :: nat
  track_stop_calls :: "track list"
  chunks :: "nat list"
  recordingStopped :: bool
  recordingPromise :: promise
  timers :: "(rat \<times> rat) list"
  raf_pending :: bool
  draw_calls :: "DrawRect list"
  downloads :: "blob list"

text \<open>
  \<open>mimeType\<close> is \<open>Some\<close> once \<open>new MediaRecorder(composedStream, {mimeType})\<close> has run.
  \<open>composedTracks\<close> and \<open>sourceTracks\<close> are \<open>composedStream.getTracks()\<close> and
  \<open>sourceStream.getTracks()\<close>.  \<open>track_stop_calls\<close> lists the tracks on which
  \<open>stop()\<close> was called, one entry per call.  A chunk is the size of the data of a
  \<open>dataavailable\<close> event.  A timer is the clock reading (in milliseconds) at which
  \<open>setTimeout(stopRecording, delay)\<close> was called, with the delay.  \<open>downloads\<close> lists
  the blobs handed to \<open>link.click()\<close>.
\<close>

definition new_job :: "environment \<Rightarrow> VideoClip \<Rightarrow> job" where
  "new_job e c =
     \<lparr>job_env = e, job_clip = c, pc = AwaitMetadata, sourceCurrentTime = 0,
      composedTracks = [], sourceTracks = [], mimeType = None,
      recorder_state = Inactive, recorder_start_calls = 0, recorder_stop_calls = 0,
      recorder_started_at = None, play_calls = 0, pause_calls = 0,
      track_stop_calls = [], chunks = [], recordingStopped = False,
      recordingPromise = Pending, timers = [], raf_pending = False,
      draw_calls = [], downloads = []\<rparr>"

text \<open>
  \<open>exportPortraitClip\<close> up to its first \<open>await\<close>.  The two early returns create
  nothing; otherwise the job waits for \<open>loadedmetadata\<close>.
\<close>

definition exportPortraitClip ::
  "environment \<Rightarrow> VideoClip \<Rightarrow> ClipCreator \<Rightarrow> ClipCreator \<times> job option" where
  "exportPortraitClip e c u =
     (if videoUrl u = [] then
        (u\<lparr>errorMessage := Some ''Video belum siap diekspor.''\<rparr>, None)
      else if \<not> has_MediaRecorder e then
        (u\<lparr>errorMessage :=
             Some ''Browser tidak mendukung MediaRecorder untuk ekspor 9:16.''\<rparr>, None)
      else
        (u\<lparr>errorMessage := None, exportingClipId := Some (c_id c)\<rparr>, Some (new_job e c)))"

text \<open>The \<open>catch\<close> block followed by the \<open>finally\<close> block.\<close>

definition export_throw :: "ClipCreator \<times> job \<Rightarrow> ClipCreator \<times> job" where
  "export_throw = (\<lambda>(u, j).
     (u\<lparr>errorMessage := Some
          ''Gagal membuat video potrait. Coba lagi di browser lain jika masalah berlanjut.'',
        exportingClipId := None\<rparr>,
      j\<lparr>pc := Returned\<rparr>))"

text \<open>
  \<open>stopRecording\<close>: behind the one-shot flag, \<open>recorder.stop()\<close> (after which the
  recorder is inactive), \<open>stop()\<close> on each track of \<open>composedStream.getTracks()\<close>,
  then on each track of \<open>sourceStream.getTracks()\<close>, then \<open>sourceVideo.pause()\<close>.
\<close>

definition stopRecording :: "job \<Rightarrow> job" where
  "stopRecording j =
     (if recordingStopped j then j
      else j\<lparr>recordingStopped := True,
             recorder_stop_calls := recorder_stop_calls j + 1,
             recorder_state := Inactive,
             track_stop_calls := track_stop_calls j @ composedTracks j @ sourceTracks j,
             pause_calls := pause_calls j + 1\<rparr>)"

text \<open>
  \<open>drawFrame\<close>, run as an animation frame callback: it returns without a new
  request once recording has stopped, and otherwise draws and requests the next
  frame, with the rectangle computed in the arithmetic of doubles.  (The black
  \<open>fillRect\<close> before each \<open>drawImage\<close> is not logged.)
\<close>

definition drawFrame :: "job \<Rightarrow> job" where
  "drawFrame j =
     (if recordingStopped j \<or> recorder_state j = Inactive then j
      else j\<lparr>draw_calls := draw_calls j @
               (case drawFrame_rect_double (videoWidth (job_env j))
                       (videoHeight (job_env j)) of
                  None \<Rightarrow> [] | Some r \<Rightarrow> [r]),
             raf_pending := True\<rparr>)"

text \<open>
  The code after \<open>await recordingPromise\<close>: \<open>stopRecording()\<close>, the download through
  a temporary link, then \<open>finally\<close>.
\<close>

definition after_recording :: "blob \<Rightarrow> ClipCreator \<times> job \<Rightarrow> ClipCreator \<times> job" where
  "after_recording b = (\<lambda>(u, j).
     (let j1 = stopRecording j in
      (u\<lparr>exportingClipId := None\<rparr>,
       j1\<lparr>downloads := downloads j1 @ [b], pc := Returned\<rparr>)))"

definition await_recording :: "ClipCreator \<times> job \<Rightarrow> ClipCreator \<times> job" where
  "await_recording = (\<lambda>(u, j).
     (case recordingPromise j of
        Pending \<Rightarrow> (u, j\<lparr>pc := AwaitRecording\<rparr>)
      | Resolved b \<Rightarrow> after_recording b (u, j)
      | Rejected \<Rightarrow> export_throw (u, j)))"

text \<open>
  The code between the \<open>seeked\<close> event and \<open>await sourceVideo.play()\<close>: the capability
  checks, the two capture streams, the probe of \<open>preferredMimeTypes\<close> in list order,
  the construction of the recorder and \<open>recorder.start()\<close>.  \<open>t\<close> is the clock.
  \<open>composedStream\<close> is built from the video tracks of the canvas stream and the
  audio tracks of \<open>sourceStream\<close>: these audio tracks are the same objects in both
  streams.
\<close>

definition after_seeked :: "rat \<Rightarrow> ClipCreator \<times> job \<Rightarrow> ClipCreator \<times> job" where
  "after_seeked t = (\<lambda>(u, j).
     (if \<not> has_captureStream (job_env j) then export_throw (u, j)
      else if \<not> has_context2d (job_env j) then export_throw (u, j)
      else
        (let j1 = j\<lparr>composedTracks :=
                       canvasVideoTracks (job_env j) @ sourceAudioTracks (job_env j),
                     sourceTracks :=
                       sourceVideoTracks (job_env j) @ sourceAudioTracks (job_env j)\<rparr>
         in case find (isTypeSupported (job_env j)) preferredMimeTypes of
              None \<Rightarrow> export_throw (u, j1)
            | Some m \<Rightarrow>
                (u, j1\<lparr>mimeType := Some m,
                       recorder_state := Recording,
                       recorder_start_calls := recorder_start_calls j1 + 1,
                       recorder_started_at := Some t,
                       play_calls := play_calls j1 + 1,
                       pc := AwaitPlay\<rparr>))))"

text \<open>
  The code between the resolution of \<open>sourceVideo.play()\<close> and
  \<open>await recordingPromise\<close>: the first \<open>requestAnimationFrame(drawFrame)\<close> and
  \<open>setTimeout(stopRecording, clip.duration * 1000)\<close>.
\<close>

definition after_play :: "rat \<Rightarrow> ClipCreator \<times> job \<Rightarrow> ClipCreator \<times> job" where
  "after_play t = (\<lambda>(u, j).
     await_recording
       (u, j\<lparr>raf_pending := True,
             timers := timers j @ [(t, c_duration (job_clip j) * 1000)]\<rparr>))"

text \<open>
  The events that the browser delivers to one job, and the handlers the source has
  installed for them.  An event for which no handler is installed, or whose promise
  is already settled, changes nothing.  A timer fires only when it is due
  (\<open>setTimeout\<close> treats a negative delay as 0).
\<close>

datatype job_event =
    LoadedMetadata
  | MediaError
  | Seeked
  | PlayResolved
  | PlayRejected
  | TimerFired
  | DataAvailable nat
  | RecorderStop
  | RecorderError
  | AnimationFrame

fun job_step :: "rat \<Rightarrow> job_event \<Rightarrow> ClipCreator \<times> job \<Rightarrow> ClipCreator \<times> job" where
  "job_step t LoadedMetadata (u, j) =
     (if pc j = AwaitMetadata
      then (u, j\<lparr>sourceCurrentTime := c_start_time (job_clip j), pc := AwaitSeeked\<rparr>)
      else (u, j))"
| "job_step t MediaError (u, j) =
     (if pc j = AwaitMetadata then export_throw (u, j) else (u, j))"
| "job_step t Seeked (u, j) =
     (if pc j = AwaitSeeked then after_seeked t (u, j) else (u, j))"
| "job_step t PlayResolved (u, j) =
     (if pc j = AwaitPlay then after_play t (u, j) else (u, j))"
| "job_step t PlayRejected (u, j) =
     (if pc j = AwaitPlay then export_throw (u, j) else (u, j))"
| "job_step t TimerFired (u, j) =
     (case timers j of
        [] \<Rightarrow> (u, j)
      | (armed, delay) # ts \<Rightarrow>
          if armed + max 0 delay \<le> t then (u, stopRecording (j\<lparr>timers := ts\<rparr>))
          else (u, j))"
| "job_step t (DataAvailable sz) (u, j) =
     (if mimeType j \<noteq> None \<and> sz > 0 then (u, j\<lparr>chunks := chunks j @ [sz]\<rparr>)
      else (u, j))"
| "job_step t RecorderStop (u, j) =
     (case mimeType j of
        None \<Rightarrow> (u, j)
      | Some m \<Rightarrow>
          (let j1 = j\<lparr>recorder_state := Inactive\<rparr> in
           case recordingPromise j1 of
             Pending \<Rightarrow>
               (let b = \<lparr>blob_parts = chunks j1, blob_type = m\<rparr>;
                    j2 = j1\<lparr>recordingPromise := Resolved b\<rparr>
                in if pc j2 = AwaitRecording then after_recording b (u, j2) else (u, j2))
           | Resolved b \<Rightarrow> (u, j1)
           | Rejected \<Rightarrow> (u, j1)))"
| "job_step t RecorderError (u, j) =
     (case mimeType j of
        None \<Rightarrow> (u, j)
      | Some m \<Rightarrow>
          (case recordingPromise j of
             Pending \<Rightarrow>
               (let j1 = j\<lparr>recordingPromise := Rejected\<rparr>
                in if pc j1 = AwaitRecording then export_throw (u, j1) else (u, j1))
           | Resolved b \<Rightarrow> (u, j)
           | Rejected \<Rightarrow> (u, j)))"
| "job_step t AnimationFrame (u, j) =
     (if raf_pending j then (u, drawFrame (j\<lparr>raf_pending := False\<rparr>)) else (u, j))"

section \<open>Portrait export: the component and its jobs\<close>

text \<open>
  The component state, the jobs started so far, a clock in milliseconds, and
  whether the view is still mounted.  An event carries the time that has passed
  since the previous one.  \<open>Export e c\<close> is a click on the button
  \<open>Ekspor 9:16\<close> of the generated clip \<open>c\<close>; the button exists for the clips of
  \<open>generatedClips\<close> and is disabled while \<open>exportingClipId === clip.id\<close>.  \<open>Close\<close> is
  a click on the close button, whose handler is the \<open>onClose\<close> of the parent
  (\<open>setSelectedVideo(null)\<close>): the component is unmounted, and it registers no
  cleanup.  \<open>JobEvent i ev\<close> delivers \<open>ev\<close> to the \<open>i\<close>-th job.
\<close>

record system =
  sys_ui :: ClipCreator
  sys_jobs :: "job list"
  sys_now :: rat
  view_open :: bool

datatype event = Export environment VideoClip | Close | JobEvent nat job_event

definition export_enabled :: "system \<Rightarrow> VideoClip \<Rightarrow> bool" where
  "export_enabled s c \<longleftrightarrow>
     view_open s \<and> c \<in> set (generatedClips (sys_ui s)) \<and>
     exportingClipId (sys_ui s) \<noteq> Some (c_id c)"

fun dispatch :: "event \<Rightarrow> system \<Rightarrow> system" where
  "dispatch (Export e c) s =
     (if export_enabled s c then
        (case exportPortraitClip e c (sys_ui s) of
           (u, None) \<Rightarrow> s\<lparr>sys_ui := u\<rparr>
         | (u, Some j) \<Rightarrow> s\<lparr>sys_ui := u, sys_jobs := sys_jobs s @ [j]\<rparr>)
      else s)"
| "dispatch Close s = s\<lparr>view_open := False\<rparr>"
| "dispatch (JobEvent i ev) s =
     (if i < length (sys_jobs s) then
        (case job_step (sys_now s) ev (sys_ui s, sys_jobs s ! i) of
           (u, j) \<Rightarrow> s\<lparr>sys_ui := u, sys_jobs := (sys_jobs s)[i := j]\<rparr>)
      else s)"

definition step :: "nat \<times> event \<Rightarrow> system \<Rightarrow> system" where
  "step = (\<lambda>(dt, ev) s. dispatch ev (s\<lparr>sys_now := sys_now s + of_nat dt\<rparr>))"

definition run :: "(nat \<times> event) list \<Rightarrow> system \<Rightarrow> system" where
  "run evs s = fold step evs s"

definition initial :: "ClipCreator \<Rightarrow> system" where
  "initial u = \<lparr>sys_ui = u, sys_jobs = [], sys_now = 0, view_open = True\<rparr>"

section \<open>Invariants of a job\<close>

text \<open>
  Three properties that every job has from its creation on, whatever events arrive;
  they are shown to be invariants of \<open>job_step\<close> below.

  \<open>stop_once\<close>: the effects of \<open>stopRecording\<close> have happened exactly once if the flag
  \<open>recordingStopped\<close> is set, and not at all otherwise.
\<close>

definition stop_once :: "job \<Rightarrow> bool" where
  "stop_once j \<longleftrightarrow>
     recorder_stop_calls j = (if recordingStopped j then 1 else 0) \<and>
     pause_calls j = (if recordingStopped j then 1 else 0) \<and>
     track_stop_calls j =
       (if recordingStopped j then composedTracks j @ sourceTracks j else []) \<and>
     (pc j = AwaitMetadata \<or> pc j = AwaitSeeked \<longrightarrow> \<not> recordingStopped j \<and> timers j = [])"

text \<open>
  \<open>timer_armed\<close>, at clock \<open>t\<close>: there is at most one stop timer; it was armed no
  earlier than \<open>recorder.start()\<close> and no later than now, and its delay is
  \<open>clip.duration * 1000\<close>.
\<close>

definition timer_armed :: "rat \<Rightarrow> job \<Rightarrow> bool" where
  "timer_armed t j \<longleftrightarrow>
     (\<forall>t0. recorder_started_at j = Some t0 \<longrightarrow> t0 \<le> t) \<and>
     (pc j = AwaitPlay \<longrightarrow> recorder_started_at j \<noteq> None) \<and>
     (pc j = AwaitMetadata \<or> pc j = AwaitSeeked \<or> pc j = AwaitPlay \<longrightarrow> timers j = []) \<and>
     length (timers j) \<le> 1 \<and>
     (\<forall>(a, d)\<in>set (timers j).
        d = c_duration (job_clip j) * 1000 \<and> a \<le> t \<and>
        (\<exists>t0. recorder_started_at j = Some t0 \<and> t0 \<le> a))"

text \<open>
  \<open>recorder_needs\<close>: as long as no recorder has been constructed nothing has been
  recorded, drawn, scheduled or saved; and a recorder is constructed only where
  \<open>MediaRecorder\<close>, \<open>captureStream\<close> and a 2d context exist and its container type
  is the first supported entry of \<open>preferredMimeTypes\<close>.
\<close>

definition recorder_needs :: "job \<Rightarrow> bool" where
  "recorder_needs j \<longleftrightarrow>
     has_MediaRecorder (job_env j) \<and>
     (mimeType j = None \<longrightarrow>
        recorder_start_calls j = 0 \<and> recorder_state j = Inactive \<and> play_calls j = 0 \<and>
        chunks j = [] \<and> downloads j = [] \<and> draw_calls j = [] \<and> timers j = [] \<and>
        \<not> raf_pending j \<and> recordingPromise j = Pending \<and>
        (pc j = AwaitMetadata \<or> pc j = AwaitSeeked \<or> pc j = Returned)) \<and>
     (\<forall>m. mimeType j = Some m \<longrightarrow>
        has_captureStream (job_env j) \<and> has_context2d (job_env j) \<and>
        find (isTypeSupported (job_env j)) preferredMimeTypes = Some m)"

section \<open>Example inputs\<close>

text \<open>
  A browser with every capability that supports plain \<open>video/webm\<close> only, a 1920 by
  1080 source whose capture stream has one video and one audio track, and a
  component with two generated clips of ten seconds.
\<close>

definition example_environment :: environment where
  "example_environment =
     \<lparr>has_MediaRecorder = True, has_captureStream = True, has_context2d = True,
      isTypeSupported = (\<lambda>m. m = ''video/webm''), videoWidth = 1920, videoHeight = 1080,
      canvasVideoTracks = [0], sourceVideoTracks = [1], sourceAudioTracks = [2]\<rparr>"

definition example_clip_a :: VideoClip where
  "example_clip_a = \<lparr>c_id = ''a'', c_title = ''Clip 1'', c_start_time = 0, c_duration = 10\<rparr>"

definition example_clip_b :: VideoClip where
  "example_clip_b = \<lparr>c_id = ''b'', c_title = ''Clip 2'', c_start_time = 10, c_duration = 10\<rparr>"

definition example_ui :: ClipCreator where
  "example_ui =
     \<lparr>clips = [], clipDuration = 30, generating = False,
      generatedClips = [example_clip_a, example_clip_b],
      exportingClipId = None, errorMessage = None, videoUrl = ''https://host/video.mp4''\<rparr>"

text \<open>
  Event traces on the example.  In \<open>example_recording_trace\<close> the first clip is
  exported: the metadata arrives after 100 ms, the seek completes 50 ms later, and
  \<open>play()\<close> resolves 500 ms after that.  \<open>example_second_export_trace\<close> clicks the
  export buttons of the first clip, of the second clip, and of the first clip again,
  and lets the first and the third job reach the recording phase.
\<close>

definition example_recording_trace :: "(nat \<times> event) list" where
  "example_recording_trace =
     [(0, Export example_environment example_clip_a),
      (100, JobEvent 0 LoadedMetadata),
      (50, JobEvent 0 Seeked),
      (500, JobEvent 0 PlayResolved)]"

definition example_second_export_trace :: "(nat \<times> event) list" where
  "example_second_export_trace =
     [(0, Export example_environment example_clip_a),
      (10, Export example_environment example_clip_b),
      (10, Export example_environment example_clip_a),
      (100, JobEvent 0 LoadedMetadata),
      (50, JobEvent 0 Seeked),
      (20, JobEvent 0 PlayResolved),
      (100, JobEvent 2 LoadedMetadata),
      (50, JobEvent 2 Seeked),
      (20, JobEvent 2 PlayResolved)]"

section \<open>Rounding to doubles\<close>

text \<open>
  \<open>log2_floor\<close> finds the leading bit of a positive integer, so that \<open>exponent\<close>
  is the binary exponent of its argument.
\<close>

lemma log2_floor_bounds:
  "1 \<le> n \<Longrightarrow> 0 \<le> log2_floor n \<and> 2 ^ nat (log2_floor n) \<le> n \<and>
     n < 2 * 2 ^ nat (log2_floor n)"
proof (induction n rule: log2_floor.induct)
  case (1 n)
  show ?case
  proof (cases "n < 2")
    case True
    with "1.prems" have "n = 1" by simp
    then show ?thesis by (subst (1 2 3) log2_floor.simps) simp
  next
    case False
    then have m: "1 \<le> n div 2" by simp
    from "1.IH"[OF False m] have l: "0 \<le> log2_floor (n div 2)"
      and lo: "2 ^ nat (log2_floor (n div 2)) \<le> n div 2"
      and hi: "n div 2 < 2 * 2 ^ nat (log2_floor (n div 2))"
      by simp_all
    have eq: "log2_floor n = 1 + log2_floor (n div 2)"
      using False by (subst log2_floor.simps) simp
    have p: "(2::int) ^ nat (1 + log2_floor (n div 2)) = 2 * 2 ^ nat (log2_floor (n div 2))"
      using l by (simp add: nat_add_distrib)
    from lo have "2 * 2 ^ nat (log2_floor (n div 2)) \<le> n" by linarith
    moreover from hi have "n < 2 * (2 * 2 ^ nat (log2_floor (n div 2)))" by linarith
    ultimately show ?thesis using l by (simp add: eq p)
  qed
qed

lemma pow2_powi: "pow2 k = 2 powi k"
  by (simp add: pow2_def power_int_def field_simps)

lemma pow2_pos: "0 < pow2 k"
  by (simp add: pow2_powi)

lemma pow2_add: "pow2 (i + j) = pow2 i * pow2 j"
  by (simp add: pow2_powi power_int_add)

lemma pow2_nat: "0 \<le> k \<Longrightarrow> pow2 k = 2 ^ nat k"
  by (simp add: pow2_def)

lemma pow2_mono: "i \<le> j \<Longrightarrow> pow2 i \<le> pow2 j"
  by (simp add: pow2_powi power_int_increasing)

lemma pow2_diff_nat:
  assumes "0 \<le> i" "0 \<le> j"
  shows "pow2 (i - j) = 2 ^ nat i / 2 ^ nat j"
proof -
  have "pow2 (i - j) * pow2 j = pow2 i"
    using pow2_add[of "i - j" j] by simp
  then have "pow2 (i - j) * 2 ^ nat j = 2 ^ nat i"
    by (simp only: pow2_nat[OF assms(1)] pow2_nat[OF assms(2)])
  then show ?thesis by (simp add: eq_divide_eq)
qed

lemma of_int_pow2_le: "2 ^ n \<le> a \<Longrightarrow> (2::rat) ^ n \<le> of_int a"
proof -
  assume "2 ^ n \<le> a"
  then have "(of_int (2 ^ n) :: rat) \<le> of_int a" by (simp only: of_int_le_iff)
  then show ?thesis by simp
qed

lemma of_int_less_pow2: "a < 2 * 2 ^ n \<Longrightarrow> (of_int a :: rat) < 2 * 2 ^ n"
proof -
  assume "a < 2 * 2 ^ n"
  then have "(of_int a :: rat) < of_int (2 * 2 ^ n)" by (simp only: of_int_less_iff)
  then show ?thesis by simp
qed

lemma exponent_bounds:
  assumes "x \<noteq> 0"
  shows "pow2 (exponent x) \<le> \<bar>x\<bar> \<and> \<bar>x\<bar> < pow2 (exponent x + 1)"
proof -
  obtain a b where q: "quotient_of \<bar>x\<bar> = (a, b)" by (cases "quotient_of \<bar>x\<bar>")
  from quotient_of_denom_pos[OF q] have b: "0 < b" .
  from quotient_of_div[OF q] have x: "\<bar>x\<bar> = of_int a / of_int b" .
  from assms have "0 < \<bar>x\<bar>" by simp
  with x b have a: "0 < a" by (simp add: zero_less_divide_iff)
  define la where "la = log2_floor a"
  define lb where "lb = log2_floor b"
  from log2_floor_bounds[of a] a have la: "0 \<le> la" "2 ^ nat la \<le> a" "a < 2 * 2 ^ nat la"
    by (simp_all add: la_def)
  from log2_floor_bounds[of b] b have lb: "0 \<le> lb" "2 ^ nat lb \<le> b" "b < 2 * 2 ^ nat lb"
    by (simp_all add: lb_def)
  define A :: rat where "A = 2 ^ nat la"
  define B :: rat where "B = 2 ^ nat lb"
  have A: "0 < A" and B: "0 < B" by (simp_all add: A_def B_def)
  have ra: "A \<le> of_int a" "of_int a < 2 * A"
    using of_int_pow2_le[OF la(2)] of_int_less_pow2[OF la(3)] by (simp_all add: A_def)
  have rb: "B \<le> of_int b" "of_int b < 2 * B"
    using of_int_pow2_le[OF lb(2)] of_int_less_pow2[OF lb(3)] by (simp_all add: B_def)
  have bpos: "0 < (of_int b :: rat)" using b by simp
  have e0: "pow2 (la - lb) = A / B"
    unfolding A_def B_def by (rule pow2_diff_nat[OF la(1) lb(1)])
  have p1: "pow2 1 = 2" and pm: "pow2 (- 1) = 1 / 2"
    by (simp_all add: pow2_def)
  have e1: "pow2 (la - lb + 1) = 2 * A / B"
    using pow2_add[of "la - lb" 1] by (simp add: e0 p1)
  have em: "pow2 (la - lb - 1) = A / (2 * B)"
    using pow2_add[of "la - lb" "- 1"] by (simp add: e0 pm)
  have up: "\<bar>x\<bar> < pow2 (la - lb + 1)"
  proof -
    have "of_int a * B < 2 * A * of_int b"
    proof -
      have "of_int a * B < 2 * A * B" using ra(2) B by simp
      also have "\<dots> \<le> 2 * A * of_int b" using rb(1) A by simp
      finally show ?thesis .
    qed
    then show ?thesis using B bpos by (simp add: x e1 divide_less_eq pos_less_divide_eq mult.commute)
  qed
  have low: "pow2 (la - lb - 1) \<le> \<bar>x\<bar>"
  proof -
    have "A * of_int b \<le> of_int a * (2 * B)"
    proof -
      have "A * of_int b \<le> A * (2 * B)" using rb(2) A by simp
      also have "\<dots> \<le> of_int a * (2 * B)" using ra(1) B by simp
      finally show ?thesis .
    qed
    then show ?thesis using B bpos by (simp add: x em frac_le_eq divide_le_eq pos_le_divide_eq mult.commute)
  qed
  show ?thesis
  proof (cases "pow2 (la - lb) \<le> \<bar>x\<bar>")
    case True
    then have "exponent x = la - lb" by (simp add: exponent_def q Let_def la_def lb_def)
    with True up show ?thesis by simp
  next
    case False
    then have "exponent x = la - lb - 1" by (simp add: exponent_def q Let_def la_def lb_def)
    with False low show ?thesis by simp
  qed
qed

lemma round_half_even_nearest: "\<bar>of_int (round_half_even q) - q\<bar> \<le> 1 / 2"
proof -
  have "of_int \<lfloor>q\<rfloor> \<le> q" "q < of_int \<lfloor>q\<rfloor> + 1" by linarith+
  then show ?thesis
    by (auto simp: round_half_even_def Let_def abs_le_iff)
qed

lemma round_double_nearest:
  assumes "x \<noteq> 0"
  shows "\<exists>m. round_double x = of_int m * pow2 (max (exponent x - 52) (- 1074)) \<and>
           \<bar>m\<bar> \<le> 2 ^ 53 \<and>
           \<bar>round_double x - x\<bar> \<le> pow2 (max (exponent x - 52) (- 1074)) / 2"
proof -
  define k where "k = max (exponent x - 52) (- 1074)"
  define p where "p = pow2 k"
  define m where "m = round_half_even (x / p)"
  have p: "0 < p" by (simp add: p_def pow2_pos)
  have r: "round_double x = of_int m * p"
    using assms by (simp add: round_double_def Let_def m_def p_def k_def)
  have near: "\<bar>of_int m - x / p\<bar> \<le> 1 / 2"
    unfolding m_def by (rule round_half_even_nearest)
  have "of_int m * p - x = (of_int m - x / p) * p"
    using p by (simp add: field_simps)
  then have "\<bar>round_double x - x\<bar> = \<bar>of_int m - x / p\<bar> * p"
    using p by (simp add: r abs_mult)
  also have "\<dots> \<le> (1 / 2) * p"
    using near p by (simp only: mult_right_mono less_imp_le)
  finally have err: "\<bar>round_double x - x\<bar> \<le> p / 2" by simp
  have p53: "pow2 53 = 2 ^ 53" by (simp add: pow2_def)
  from exponent_bounds[OF assms] have "\<bar>x\<bar> < pow2 (exponent x + 1)" by simp
  also have "pow2 (exponent x + 1) = pow2 (exponent x - 52) * 2 ^ 53"
    using pow2_add[of "exponent x - 52" 53] by (simp add: p53 add.commute)
  also have "\<dots> \<le> p * 2 ^ 53"
    using pow2_mono[of "exponent x - 52" k] by (simp add: p_def k_def)
  finally have "\<bar>x\<bar> / p < 2 ^ 53"
    using p by (simp add: pos_divide_less_eq)
  then have "\<bar>x / p\<bar> < 2 ^ 53" using p by simp
  with near have "\<bar>(of_int m :: rat)\<bar> < 2 ^ 53 + 1" by linarith
  then have "(of_int \<bar>m\<bar> :: rat) < of_int (2 ^ 53 + 1)" by simp
  then have "\<bar>m\<bar> < 2 ^ 53 + 1" by (simp only: of_int_less_iff)
  then have "\<bar>m\<bar> \<le> 2 ^ 53" by simp
  with r err show ?thesis unfolding p_def k_def by blast
qed

lemma pow2_strict_mono: "i < j \<Longrightarrow> pow2 i < pow2 j"
  by (simp add: pow2_powi power_int_strict_increasing)

lemma round_half_even_of_int: "round_half_even (of_int n) = n"
  by (simp add: round_half_even_def)

text \<open>A number with a significand of less than 53 bits is a double: rounding keeps it.\<close>

lemma round_double_exact:
  assumes x: "x = of_int m * pow2 k" and m: "\<bar>m\<bar> < 2 ^ 53" and k: "- 1074 \<le> k"
  shows "round_double x = x"
proof (cases "x = 0")
  case True
  then show ?thesis by (simp add: round_double_def)
next
  case False
  define k' where "k' = max (exponent x - 52) (- 1074)"
  have "\<bar>(of_int m :: rat)\<bar> < 2 ^ 53"
  proof -
    from m have "(of_int \<bar>m\<bar> :: rat) < of_int (2 ^ 53)" by (simp only: of_int_less_iff)
    then show ?thesis by simp
  qed
  then have "\<bar>x\<bar> < 2 ^ 53 * pow2 k"
    using pow2_pos[of k] by (simp add: x abs_mult)
  also have "\<dots> = pow2 (53 + k)"
    using pow2_add[of 53 k] by (simp add: pow2_def)
  finally have ub: "\<bar>x\<bar> < pow2 (53 + k)" .
  have "exponent x < 53 + k"
  proof (rule ccontr)
    assume "\<not> exponent x < 53 + k"
    then have "pow2 (53 + k) \<le> pow2 (exponent x)" by (simp add: pow2_mono)
    with exponent_bounds[OF False] ub show False by simp
  qed
  then have le: "k' \<le> k" using k by (simp add: k'_def)
  define j where "j = nat (k - k')"
  have "pow2 k = pow2 (k - k') * pow2 k'"
    using pow2_add[of "k - k'" k'] by simp
  also have "pow2 (k - k') = 2 ^ j"
    using le by (simp add: pow2_def j_def)
  finally have pk: "pow2 k = 2 ^ j * pow2 k'" .
  have "x / pow2 k' = of_int m * 2 ^ j"
    using pow2_pos[of k'] by (simp add: x pk)
  also have "\<dots> = of_int (m * 2 ^ j)" by simp
  finally have q: "x / pow2 k' = of_int (m * 2 ^ j)" .
  have "round_double x = of_int (round_half_even (x / pow2 k')) * pow2 k'"
    using False by (simp add: round_double_def Let_def k'_def)
  also have "\<dots> = of_int (m * 2 ^ j) * pow2 k'"
    by (simp only: q round_half_even_of_int)
  also have "\<dots> = x"
    by (simp add: x pk)
  finally show ?thesis .
qed

lemma round_double_of_int:
  "\<bar>z\<bar> < 2 ^ 53 \<Longrightarrow> round_double (of_int z) = of_int z"
  by (rule round_double_exact[where m = z and k = 0]) (simp_all add: pow2_def)

text \<open>
  The difference of a double below \<open>2 ^ 53\<close> and a smaller non-negative integer is
  a double: the subtraction \<open>video.duration - currentTime\<close> is exact when the cursor is
  an integer.
\<close>

lemma round_double_minus_int:
  assumes d: "round_double D = D" and D: "D < 2 ^ 53"
    and c: "0 \<le> c" "of_int c < D"
  shows "round_double (D - of_int c) = D - of_int c"
proof (cases "c = 0")
  case True
  with d show ?thesis by simp
next
  case False
  with c have cpos: "0 < c" by simp
  from c have Dpos: "0 < D" by (metis of_int_0_le_iff le_less_trans)
  then have D0: "D \<noteq> 0" by simp
  define k where "k = max (exponent D - 52) (- 1074)"
  from round_double_nearest[OF D0] d obtain m
    where m: "D = of_int m * pow2 k" "\<bar>m\<bar> \<le> 2 ^ 53"
    unfolding k_def by metis
  have "exponent D < 53"
  proof (rule ccontr)
    assume "\<not> exponent D < 53"
    then have "pow2 53 \<le> pow2 (exponent D)" by (simp add: pow2_mono)
    moreover have "pow2 53 = 2 ^ 53" by (simp add: pow2_def)
    ultimately show False using exponent_bounds[OF D0] D Dpos by simp
  qed
  then have k0: "k \<le> 0" and k1: "- 1074 \<le> k" by (simp_all add: k_def)
  define j where "j = nat (- k)"
  have pj: "pow2 k * 2 ^ j = 1"
  proof -
    have "pow2 k * pow2 (- k) = 1" using pow2_add[of k "- k"] by (simp add: pow2_def)
    moreover have "pow2 (- k) = 2 ^ j" using k0 by (simp add: pow2_def j_def)
    ultimately show ?thesis by simp
  qed
  have ci: "(of_int c :: rat) = of_int (c * 2 ^ j) * pow2 k"
  proof -
    have "of_int (c * 2 ^ j) * pow2 k = of_int c * (pow2 k * 2 ^ j)" by simp
    then show ?thesis by (simp only: pj mult_1_right)
  qed
  have diff: "D - of_int c = of_int (m - c * 2 ^ j) * pow2 k"
    by (subst ci, subst m(1)) (simp add: left_diff_distrib)
  have mpos: "0 < m"
    using Dpos m(1) pow2_pos[of k] by (simp add: zero_less_mult_iff)
  have "0 < of_int (m - c * 2 ^ j) * pow2 k"
    using c(2) diff by simp
  then have "(0::rat) < of_int (m - c * 2 ^ j)"
    using pow2_pos[of k] by (simp only: zero_less_mult_iff) auto
  then have lo: "0 < m - c * 2 ^ j"
    by (simp only: of_int_0_less_iff)
  have "0 < c * 2 ^ j" using cpos by simp
  then have hi: "m - c * 2 ^ j < 2 ^ 53" using m(2) mpos by simp
  from lo hi have "\<bar>m - c * 2 ^ j\<bar> < 2 ^ 53" by simp
  from round_double_exact[OF diff this k1] show ?thesis .
qed












text \<open>
  The roundings that occur in the examples below: slicing a duration of 1 into slices
  of 0.1, and the frame geometry of a 693 by 1232 and of a 1920 by 1080 source.
\<close>

lemma round_double_tenths:
  "round_double (1 / 10) = 3602879701896397 / 36028797018963968 \<and>
   round_double 1 = 1 \<and>
   round_double (3602879701896397 / 36028797018963968) = 3602879701896397 / 36028797018963968 \<and>
   round_double (32425917317067571 / 36028797018963968) = 8106479329266893 / 9007199254740992 \<and>
   round_double (3602879701896397 / 18014398509481984) = 3602879701896397 / 18014398509481984 \<and>
   round_double (14411518807585587 / 18014398509481984) = 3602879701896397 / 4503599627370496 \<and>
   round_double (10808639105689191 / 36028797018963968) = 1351079888211149 / 4503599627370496 \<and>
   round_double (3152519739159347 / 4503599627370496) = 3152519739159347 / 4503599627370496 \<and>
   round_double (14411518807585589 / 36028797018963968) = 3602879701896397 / 9007199254740992 \<and>
   round_double (5404319552844595 / 9007199254740992) = 5404319552844595 / 9007199254740992 \<and>
   round_double (18014398509481985 / 36028797018963968) = 1 / 2 \<and>
   round_double (1 / 2) = 1 / 2 \<and>
   round_double (21617278211378381 / 36028797018963968) = 5404319552844595 / 9007199254740992 \<and>
   round_double (3602879701896397 / 9007199254740992) = 3602879701896397 / 9007199254740992 \<and>
   round_double (25220157913274777 / 36028797018963968) = 3152519739159347 / 4503599627370496 \<and>
   round_double (1351079888211149 / 4503599627370496) = 1351079888211149 / 4503599627370496 \<and>
   round_double (28823037615171173 / 36028797018963968) = 7205759403792793 / 9007199254740992 \<and>
   round_double (1801439850948199 / 9007199254740992) = 1801439850948199 / 9007199254740992 \<and>
   round_double (32425917317067569 / 36028797018963968) = 2026619832316723 / 2251799813685248 \<and>
   round_double (225179981368525 / 2251799813685248) = 225179981368525 / 2251799813685248 \<and>
   round_double (36028797018963965 / 36028797018963968) = 9007199254740991 / 9007199254740992 \<and>
   round_double (1 / 9007199254740992) = 1 / 9007199254740992"
  by code_simp


lemma round_double_1920_1080:
  "round_double (16 / 9) = 2001599834386887 / 1125899906842624 \<and>
   round_double (9 / 16) = 9 / 16 \<and>
   round_double (32 / 27) = 667199944795629 / 562949953421312 \<and>
   round_double (10007999171934435 / 4398046511104) = 2501999792983609 / 1099511627776 \<and>
   round_double (1710351420984889 / 1099511627776) = 1710351420984889 / 1099511627776 \<and>
   round_double (- (1710351420984889 / 2199023255552)) = - (1710351420984889 / 2199023255552)"
  by code_simp

section \<open>The auto-slicing loop\<close>

declare string_of_nat.simps [simp del]

lemma autoGenerateClips_loop_exit:
  "\<not> cur < D \<Longrightarrow> autoGenerateClips_loop D L cur acc = Some acc"
  by (subst autoGenerateClips_loop.simps) simp

lemma autoGenerateClips_loop_step:
  "cur < D \<Longrightarrow> autoGenerateClips_loop D L cur acc =
     autoGenerateClips_loop D L (cur + min L (D - cur))
       (acc @ [\<lparr>start = cur, duration = min L (D - cur),
                 title = ''Clip '' @ string_of_nat (length acc + 1)\<rparr>])"
  by (subst autoGenerateClips_loop.simps) (simp add: Let_def)

lemma ceiling_quotient_Suc:
  fixes x L :: rat
  assumes "0 < L" "nat \<lceil>x / L\<rceil> = Suc k"
  shows "0 < x"
proof (rule ccontr)
  assume "\<not> 0 < x"
  with assms(1) have "x / L \<le> 0" by (simp add: divide_le_0_iff)
  then have "\<lceil>x / L\<rceil> \<le> 0" by simp
  with assms(2) show False by simp
qed

lemma autoGenerateClips_loop_closed:
  assumes "0 < L"
  shows "autoGenerateClips_loop D L cur acc =
     Some (acc @ map (\<lambda>i. \<lparr>start = cur + of_nat i * L,
                         duration = min L (D - (cur + of_nat i * L)),
                         title = ''Clip '' @ string_of_nat (length acc + i + 1)\<rparr>)
                  [0..<nat \<lceil>(D - cur) / L\<rceil>])"
proof (induction "nat \<lceil>(D - cur) / L\<rceil>" arbitrary: cur acc)
  case 0
  then have "(D - cur) / L \<le> 0"
    by simp
  with assms have "\<not> cur < D"
    by (simp add: divide_le_0_iff)
  with 0 show ?case
    by (simp add: autoGenerateClips_loop_exit)
next
  case (Suc k)
  from ceiling_quotient_Suc[OF assms Suc.hyps(2)[symmetric]]
  have lt: "cur < D" by simp
  show ?case
  proof (cases "L \<le> D - cur")
    case True
    have "(D - (cur + L)) / L = (D - cur) / L - 1"
      using assms by (simp add: field_simps)
    then have k: "k = nat \<lceil>(D - (cur + L)) / L\<rceil>"
      using Suc.hyps(2) by simp
    have m: "min L (D - cur) = L" using True by simp
    have "autoGenerateClips_loop D L cur acc =
        autoGenerateClips_loop D L (cur + L)
          (acc @ [\<lparr>start = cur, duration = L,
                    title = ''Clip '' @ string_of_nat (length acc + 1)\<rparr>])"
      using autoGenerateClips_loop_step[OF lt, of L acc] by (simp only: m)
    also have "\<dots> = Some ((acc @ [\<lparr>start = cur, duration = L,
                    title = ''Clip '' @ string_of_nat (length acc + 1)\<rparr>]) @
          map (\<lambda>i. \<lparr>start = cur + L + of_nat i * L,
                     duration = min L (D - (cur + L + of_nat i * L)),
                     title = ''Clip '' @ string_of_nat (Suc (length acc) + i + 1)\<rparr>)
            [0..<k])"
      using Suc.hyps(1)[OF k, of "acc @ [\<lparr>start = cur, duration = L,
                    title = ''Clip '' @ string_of_nat (length acc + 1)\<rparr>]"]
      by (simp add: k[symmetric])
    also have "\<dots> = Some (acc @ map (\<lambda>i. \<lparr>start = cur + of_nat i * L,
                         duration = min L (D - (cur + of_nat i * L)),
                         title = ''Clip '' @ string_of_nat (length acc + i + 1)\<rparr>)
                  [0..<Suc k])"
      using True
      by (simp add: upt_conv_Cons map_Suc_upt[symmetric] algebra_simps del: upt_Suc)
    finally show ?thesis
      by (simp only: Suc.hyps(2)[symmetric])
  next
    case False
    then have "(D - cur) / L \<le> 1"
      using assms by (simp add: field_simps)
    moreover from lt assms have "0 < (D - cur) / L" by simp
    ultimately have "\<lceil>(D - cur) / L\<rceil> = 1"
      by (simp add: ceiling_eq_iff)
    then have one: "nat \<lceil>(D - cur) / L\<rceil> = 1" by simp
    have m: "min L (D - cur) = D - cur" using False by simp
    show ?thesis
      using autoGenerateClips_loop_step[OF lt, of L acc]
      by (simp add: m one autoGenerateClips_loop_exit)
  qed
qed

lemma slot_start_below:
  fixes D L :: rat
  assumes "0 < L" "i < nat \<lceil>D / L\<rceil>"
  shows "of_nat i * L < D"
proof -
  from assms(2) have "int i < \<lceil>D / L\<rceil>" by simp
  then have "of_int (int i) < D / L" by (simp only: less_ceiling_iff)
  with assms(1) show ?thesis by (simp add: pos_less_divide_eq)
qed

lemma slots_cover:
  fixes D L :: rat
  assumes "0 < L"
  shows "D \<le> of_nat (nat \<lceil>D / L\<rceil>) * L"
proof -
  have "D / L \<le> of_int \<lceil>D / L\<rceil>" by (rule le_of_int_ceiling)
  also have "of_int \<lceil>D / L\<rceil> \<le> (of_nat (nat \<lceil>D / L\<rceil>) :: rat)"
  proof -
    have "\<lceil>D / L\<rceil> \<le> int (nat \<lceil>D / L\<rceil>)" by simp
    then have "(of_int \<lceil>D / L\<rceil> :: rat) \<le> of_int (int (nat \<lceil>D / L\<rceil>))"
      by (simp only: of_int_le_iff)
    then show ?thesis by simp
  qed
  finally show ?thesis using assms by (simp add: pos_divide_le_eq)
qed

lemma autoGenerateClips_loop_nth:
  assumes "0 < L"
  shows "\<exists>cs. autoGenerateClips_loop D L 0 [] = Some cs \<and>
           length cs = nat \<lceil>D / L\<rceil> \<and>
           (\<forall>i<length cs. start (cs ! i) = of_nat i * L \<and>
               duration (cs ! i) = min L (D - of_nat i * L) \<and>
               title (cs ! i) = ''Clip '' @ string_of_nat (i + 1))"
  using autoGenerateClips_loop_closed[OF assms, of D 0 "[]"] by simp

lemma example_95_30:
  "autoGenerateClips_loop 95 30 0 [] =
     Some [\<lparr>start = 0, duration = 30, title = ''Clip 1''\<rparr>,
           \<lparr>start = 30, duration = 30, title = ''Clip 2''\<rparr>,
           \<lparr>start = 60, duration = 30, title = ''Clip 3''\<rparr>,
           \<lparr>start = 90, duration = 5, title = ''Clip 4''\<rparr>]"
  by (simp add: autoGenerateClips_loop_step autoGenerateClips_loop_exit
      string_of_nat.simps digit_char_def)


text \<open>
  What follows from the closed form: a list whose \<open>i\<close>-th entry starts at
  \<open>i * L\<close> and lasts \<open>min L (D - i * L)\<close>, of length \<open>\<lceil>D / L\<rceil>\<close>, tiles
  \<open>[0, D)\<close>.
\<close>

lemma planned_properties:
  fixes D L :: rat and cs :: "ClipSegment list"
  assumes L: "0 < L" and D: "0 < D"
    and len: "length cs = nat \<lceil>D / L\<rceil>"
    and nth: "\<forall>i<length cs. start (cs ! i) = of_nat i * L \<and>
               duration (cs ! i) = min L (D - of_nat i * L)"
  shows "cs \<noteq> []"
    and "sorted_wrt (<) (map start cs)"
    and "(\<Union>c\<in>set cs. {start c ..< start c + duration c}) = {0 ..< D}"
    and "\<forall>i<length cs. \<forall>j<length cs. i \<noteq> j \<longrightarrow>
           {start (cs ! i) ..< start (cs ! i) + duration (cs ! i)} \<inter>
           {start (cs ! j) ..< start (cs ! j) + duration (cs ! j)} = {}"
    and "start (hd cs) = 0"
    and "\<forall>i. Suc i < length cs \<longrightarrow>
           start (cs ! Suc i) = start (cs ! i) + duration (cs ! i) \<and> duration (cs ! i) = L"
    and "start (last cs) + duration (last cs) = D"
    and "0 < duration (last cs) \<and> duration (last cs) \<le> L"
proof -
  have below: "of_nat i * L < D" if "i < length cs" for i
    using slot_start_below[OF L] that len by simp
  have cover: "D \<le> of_nat (length cs) * L"
    using slots_cover[OF L, of D] len by simp
  have st: "start (cs ! i) = of_nat i * L" if "i < length cs" for i
    using nth that by simp
  have du: "duration (cs ! i) = min L (D - of_nat i * L)" if "i < length cs" for i
    using nth that by simp
  have full: "duration (cs ! i) = L" if "Suc i < length cs" for i
  proof -
    have "of_nat (Suc i) * L < D" using below[OF that] .
    then have "L \<le> D - of_nat i * L" by (simp add: algebra_simps)
    with du[of i] that show ?thesis by simp
  qed
  have endp: "start (cs ! i) + duration (cs ! i) \<le> of_nat (Suc i) * L" if "i < length cs" for i
    using st[OF that] du[OF that] by (simp add: algebra_simps)
  have endD: "start (cs ! i) + duration (cs ! i) \<le> D" if "i < length cs" for i
    using st[OF that] du[OF that] by (simp add: algebra_simps)
  have posd: "0 < duration (cs ! i)" if "i < length cs" for i
    using du[OF that] below[OF that] L by simp
  show ne: "cs \<noteq> []"
  proof
    assume "cs = []"
    with cover D show False by simp
  qed
  have mono: "start (cs ! i) + duration (cs ! i) \<le> start (cs ! j)"
    if "i < j" "j < length cs" for i j
  proof -
    from that have i: "i < length cs" by simp
    from that(1) have "Suc i \<le> j" by simp
    then have "(of_nat (Suc i) :: rat) \<le> of_nat j" by (simp only: of_nat_le_iff)
    with L have "of_nat (Suc i) * L \<le> of_nat j * L" by (simp only: mult_right_mono less_imp_le)
    with endp[OF i] st[OF that(2)] show ?thesis by simp
  qed
  show "sorted_wrt (<) (map start cs)"
    unfolding sorted_wrt_iff_nth_less
  proof (intro allI impI)
    fix i j assume "i < j" "j < length (map start cs)"
    then have ij: "i < j" "j < length cs" by simp_all
    then have i: "i < length cs" by simp
    from mono[OF ij] posd[OF i] ij i show "map start cs ! i < map start cs ! j" by simp
  qed
  show "(\<Union>c\<in>set cs. {start c ..< start c + duration c}) = {0 ..< D}"
  proof (intro set_eqI iffI)
    fix x assume "x \<in> (\<Union>c\<in>set cs. {start c ..< start c + duration c})"
    then obtain c where c: "c \<in> set cs" "start c \<le> x" "x < start c + duration c" by auto
    then obtain i where i: "i < length cs" "c = cs ! i" by (auto simp: in_set_conv_nth)
    have "0 \<le> start (cs ! i)" using st[OF i(1)] L by simp
    with c i endD[OF i(1)] show "x \<in> {0 ..< D}" by simp
  next
    fix x assume "x \<in> {0 ..< D}"
    then have x: "0 \<le> x" "x < D" by simp_all
    define i where "i = nat \<lfloor>x / L\<rfloor>"
    have q: "0 \<le> x / L" using x L by simp
    then have fl: "of_int \<lfloor>x / L\<rfloor> = (of_nat i :: rat)" by (simp add: i_def)
    have lo: "of_nat i * L \<le> x"
      using of_int_floor_le[of "x / L"] L by (simp add: fl pos_le_divide_eq)
    have hi: "x < (of_nat i + 1) * L"
      using floor_correct[of "x / L"] L by (simp add: fl pos_divide_less_eq)
    have iL: "i < length cs"
    proof (rule ccontr)
      assume "\<not> i < length cs"
      then have "(of_nat (length cs) :: rat) \<le> of_nat i" by simp
      with L have "of_nat (length cs) * L \<le> of_nat i * L" by (simp only: mult_right_mono less_imp_le)
      with cover lo x show False by simp
    qed
    have "x < start (cs ! i) + duration (cs ! i)"
      using st[OF iL] du[OF iL] hi x by (simp add: algebra_simps min_def)
    moreover have "start (cs ! i) \<le> x" using st[OF iL] lo by simp
    moreover have "cs ! i \<in> set cs" using iL by simp
    ultimately show "x \<in> (\<Union>c\<in>set cs. {start c ..< start c + duration c})" by force
  qed
  show "\<forall>i<length cs. \<forall>j<length cs. i \<noteq> j \<longrightarrow>
           {start (cs ! i) ..< start (cs ! i) + duration (cs ! i)} \<inter>
           {start (cs ! j) ..< start (cs ! j) + duration (cs ! j)} = {}"
  proof (intro allI impI)
    fix i j assume ij: "i < length cs" "j < length cs" "i \<noteq> j"
    then consider "i < j" | "j < i" by linarith
    then show "{start (cs ! i) ..< start (cs ! i) + duration (cs ! i)} \<inter>
           {start (cs ! j) ..< start (cs ! j) + duration (cs ! j)} = {}"
    proof cases
      case 1
      from mono[OF 1 ij(2)] show ?thesis by auto
    next
      case 2
      from mono[OF 2 ij(1)] show ?thesis by auto
    qed
  qed
  from ne have l0: "0 < length cs" by simp
  show "start (hd cs) = 0"
    using st[OF l0] ne by (simp add: hd_conv_nth)
  show "\<forall>i. Suc i < length cs \<longrightarrow>
           start (cs ! Suc i) = start (cs ! i) + duration (cs ! i) \<and> duration (cs ! i) = L"
  proof (intro allI impI)
    fix i assume i: "Suc i < length cs"
    then have i': "i < length cs" by simp
    show "start (cs ! Suc i) = start (cs ! i) + duration (cs ! i) \<and> duration (cs ! i) = L"
      using st[OF i] st[OF i'] full[OF i] by (simp add: algebra_simps)
  qed
  have lastn: "last cs = cs ! (length cs - 1)" using ne by (simp add: last_conv_nth)
  have ll: "length cs - 1 < length cs" using l0 by simp
  have "Suc 0 \<le> length cs" using l0 by linarith
  then have "(of_nat (length cs - Suc 0) :: rat) = of_nat (length cs) - of_nat (Suc 0)"
    by (rule of_nat_diff)
  then have "(of_nat (length cs - 1) :: rat) = of_nat (length cs) - 1"
    by simp
  then have "D - of_nat (length cs - 1) * L \<le> L"
    using cover by (simp add: algebra_simps)
  then have dl: "duration (last cs) = D - of_nat (length cs - 1) * L"
    using du[OF ll] lastn by simp
  show "start (last cs) + duration (last cs) = D"
    using st[OF ll] dl lastn by simp
  show "0 < duration (last cs) \<and> duration (last cs) \<le> L"
    using posd[OF ll] du[OF ll] lastn by simp
qed


text \<open>
  The loop in the arithmetic of doubles.  When the slice length is a whole number
  and the video duration is a double below \<open>2 ^ 53\<close>, every cursor is a whole number
  or the duration itself, no operation rounds, and the loop computes what it
  computes in exact arithmetic.
\<close>

lemma autoGenerateClips_loop_double_exit:
  "\<not> cur < D \<Longrightarrow> autoGenerateClips_loop_double D L cur acc = Some acc"
  by (subst autoGenerateClips_loop_double.simps) simp

lemma autoGenerateClips_loop_double_step:
  "cur < D \<Longrightarrow> autoGenerateClips_loop_double D L cur acc =
     autoGenerateClips_loop_double D L
       (round_double (cur + min L (round_double (D - cur))))
       (acc @ [\<lparr>start = cur, duration = min L (round_double (D - cur)),
                 title = ''Clip '' @ string_of_nat (length acc + 1)\<rparr>])"
  by (subst autoGenerateClips_loop_double.simps) (simp add: Let_def)

lemma autoGenerateClips_loop_double_exact:
  assumes L: "L = of_int n" "0 < n" and d: "round_double D = D" and D: "D < 2 ^ 53"
    and c: "0 \<le> c"
  shows "autoGenerateClips_loop_double D L (of_int c) acc =
         autoGenerateClips_loop D L (of_int c) acc"
  using c
proof (induction "nat \<lceil>(D - of_int c) / L\<rceil>" arbitrary: c acc)
  case 0
  from L have Lpos: "0 < L" by simp
  from 0 have "(D - of_int c) / L \<le> 0" by simp
  with Lpos have "\<not> of_int c < D" by (simp add: divide_le_0_iff)
  then show ?case
    by (simp add: autoGenerateClips_loop_double_exit autoGenerateClips_loop_exit)
next
  case (Suc k)
  from L have Lpos: "0 < L" by simp
  from ceiling_quotient_Suc[OF Lpos Suc.hyps(2)[symmetric]]
  have lt: "of_int c < D" by simp
  from round_double_minus_int[OF d D Suc.prems lt]
  have sub: "round_double (D - of_int c) = D - of_int c" .
  show ?case
  proof (cases "L \<le> D - of_int c")
    case True
    then have m: "min L (D - of_int c) = L" by simp
    have nxt: "of_int c + L = of_int (c + n)" by (simp add: L)
    from True D have "of_int (c + n) < (2::rat) ^ 53" by (simp add: L)
    then have "(of_int (c + n) :: rat) < of_int (2 ^ 53)" by simp
    then have "c + n < 2 ^ 53" by (simp only: of_int_less_iff)
    with Suc.prems L(2) have "\<bar>c + n\<bar> < 2 ^ 53" by simp
    from round_double_of_int[OF this]
    have add: "round_double (of_int c + L) = of_int (c + n)" by (simp only: nxt)
    have "(D - of_int (c + n)) / L = (D - of_int c) / L - 1"
    proof -
      have nz: "rat_of_int n \<noteq> 0" using L(2) by simp
      have "(D - of_int (c + n)) / of_int n = (D - of_int c) / of_int n - of_int n / of_int n"
        using nz by (simp add: diff_divide_distrib add_divide_distrib)
      with nz show ?thesis by (simp add: L)
    qed
    then have k: "k = nat \<lceil>(D - of_int (c + n)) / L\<rceil>"
      using Suc.hyps(2) by simp
    have c': "0 \<le> c + n" using Suc.prems L(2) by simp
    have "autoGenerateClips_loop_double D L (of_int c) acc =
        autoGenerateClips_loop_double D L (of_int (c + n))
          (acc @ [\<lparr>start = of_int c, duration = L,
                    title = ''Clip '' @ string_of_nat (length acc + 1)\<rparr>])"
      using autoGenerateClips_loop_double_step[OF lt, of L acc]
      by (simp only: sub m add)
    also have "\<dots> = autoGenerateClips_loop D L (of_int (c + n))
          (acc @ [\<lparr>start = of_int c, duration = L,
                    title = ''Clip '' @ string_of_nat (length acc + 1)\<rparr>])"
      by (rule Suc.hyps(1)[OF k c'])
    also have "\<dots> = autoGenerateClips_loop D L (of_int c) acc"
      using autoGenerateClips_loop_step[OF lt, of L acc]
      by (simp only: m nxt)
    finally show ?thesis .
  next
    case False
    then have m: "min L (D - of_int c) = D - of_int c" by simp
    have rejoin: "of_int c + (D - of_int c) = D" by simp
    have "autoGenerateClips_loop_double D L (of_int c) acc =
        autoGenerateClips_loop_double D L D
          (acc @ [\<lparr>start = of_int c, duration = D - of_int c,
                    title = ''Clip '' @ string_of_nat (length acc + 1)\<rparr>])"
      using autoGenerateClips_loop_double_step[OF lt, of L acc]
      by (simp only: sub m rejoin d)
    also have "\<dots> = Some (acc @ [\<lparr>start = of_int c, duration = D - of_int c,
                    title = ''Clip '' @ string_of_nat (length acc + 1)\<rparr>])"
      by (simp add: autoGenerateClips_loop_double_exit)
    also have "\<dots> = autoGenerateClips_loop D L D
          (acc @ [\<lparr>start = of_int c, duration = D - of_int c,
                    title = ''Clip '' @ string_of_nat (length acc + 1)\<rparr>])"
      by (simp add: autoGenerateClips_loop_exit)
    also have "\<dots> = autoGenerateClips_loop D L (of_int c) acc"
      using autoGenerateClips_loop_step[OF lt, of L acc]
      by (simp only: m rejoin)
    finally show ?thesis .
  qed
qed

lemma example_tenths_double:
  "autoGenerateClips_loop_double 1 (round_double (1 / 10)) 0 [] =
     Some [\<lparr>start = 0, duration = 3602879701896397 / 36028797018963968,
             title = ''Clip 1''\<rparr>,
           \<lparr>start = 3602879701896397 / 36028797018963968, duration = 3602879701896397 / 36028797018963968,
             title = ''Clip 2''\<rparr>,
           \<lparr>start = 3602879701896397 / 18014398509481984, duration = 3602879701896397 / 36028797018963968,
             title = ''Clip 3''\<rparr>,
           \<lparr>start = 1351079888211149 / 4503599627370496, duration = 3602879701896397 / 36028797018963968,
             title = ''Clip 4''\<rparr>,
           \<lparr>start = 3602879701896397 / 9007199254740992, duration = 3602879701896397 / 36028797018963968,
             title = ''Clip 5''\<rparr>,
           \<lparr>start = 1 / 2, duration = 3602879701896397 / 36028797018963968,
             title = ''Clip 6''\<rparr>,
           \<lparr>start = 5404319552844595 / 9007199254740992, duration = 3602879701896397 / 36028797018963968,
             title = ''Clip 7''\<rparr>,
           \<lparr>start = 3152519739159347 / 4503599627370496, duration = 3602879701896397 / 36028797018963968,
             title = ''Clip 8''\<rparr>,
           \<lparr>start = 7205759403792793 / 9007199254740992, duration = 3602879701896397 / 36028797018963968,
             title = ''Clip 9''\<rparr>,
           \<lparr>start = 2026619832316723 / 2251799813685248, duration = 3602879701896397 / 36028797018963968,
             title = ''Clip 10''\<rparr>,
           \<lparr>start = 9007199254740991 / 9007199254740992, duration = 1 / 9007199254740992,
             title = ''Clip 11''\<rparr>]"
  by (simp add: round_double_tenths autoGenerateClips_loop_double_step
      autoGenerateClips_loop_double_exit string_of_nat.simps digit_char_def)

section \<open>Runs of the component\<close>

lemma run_Nil: "run [] s = s"
  by (simp add: run_def)

lemma run_Cons: "run (e # evs) s = run evs (step e s)"
  by (simp add: run_def)

lemma run_append: "run (evs @ evs') s = run evs' (run evs s)"
  by (simp add: run_def)

text \<open>
  A property of jobs that holds for a new job, is kept by every handler and
  survives the passing of time holds for every job of every reachable state.
\<close>

lemma dispatch_jobs_invariant:
  assumes new: "\<And>e c. has_MediaRecorder e \<Longrightarrow> P (sys_now s) (new_job e c)"
    and stp: "\<And>ev u j. P (sys_now s) j \<Longrightarrow> P (sys_now s) (snd (job_step (sys_now s) ev (u, j)))"
    and init: "\<forall>j\<in>set (sys_jobs s). P (sys_now s) j"
  shows "\<forall>j\<in>set (sys_jobs (dispatch ev s)). P (sys_now (dispatch ev s)) j"
proof (cases ev)
  case (Export e c)
  with new init show ?thesis
    by (auto simp: exportPortraitClip_def)
next
  case Close
  with init show ?thesis by simp
next
  case (JobEvent i jev)
  show ?thesis
  proof (cases "i < length (sys_jobs s)")
    case False
    with JobEvent init show ?thesis by simp
  next
    case True
    obtain u j where r: "job_step (sys_now s) jev (sys_ui s, sys_jobs s ! i) = (u, j)"
      by (cases "job_step (sys_now s) jev (sys_ui s, sys_jobs s ! i)")
    from True init have "P (sys_now s) (sys_jobs s ! i)" by simp
    from stp[OF this, of jev "sys_ui s"] r have "P (sys_now s) j" by simp
    with init JobEvent True r show ?thesis
      by (auto dest!: set_update_subset_insert[THEN subsetD])
  qed
qed

lemma run_jobs_invariant:
  assumes new: "\<And>t e c. has_MediaRecorder e \<Longrightarrow> P t (new_job e c)"
    and stp: "\<And>t ev u j. P t j \<Longrightarrow> P t (snd (job_step t ev (u, j)))"
    and mono: "\<And>t t' j. P t j \<Longrightarrow> t \<le> t' \<Longrightarrow> P t' j"
    and init: "\<forall>j\<in>set (sys_jobs s). P (sys_now s) j"
  shows "\<forall>j\<in>set (sys_jobs (run evs s)). P (sys_now (run evs s)) j"
  using init
proof (induction evs arbitrary: s)
  case Nil
  then show ?case by (simp add: run_Nil)
next
  case (Cons a evs)
  obtain dt ev where a: "a = (dt, ev)" by (cases a)
  let ?s = "s\<lparr>sys_now := sys_now s + of_nat dt\<rparr>"
  from Cons.prems mono have "\<forall>j\<in>set (sys_jobs ?s). P (sys_now ?s) j"
    by auto
  from dispatch_jobs_invariant[where P = P and s = ?s and ev = ev, OF new stp this]
  have "\<forall>j\<in>set (sys_jobs (step a s)). P (sys_now (step a s)) j"
    by (simp add: step_def a)
  from Cons.IH[OF this] show ?case by (simp add: run_Cons)
qed

section \<open>The invariants are invariants\<close>

lemma stop_once_new: "stop_once (new_job e c)"
  by (simp add: stop_once_def new_job_def)

lemma stop_once_step: "stop_once j \<Longrightarrow> stop_once (snd (job_step t ev (u, j)))"
  apply (cases ev)
  apply (auto simp: stop_once_def export_throw_def after_seeked_def after_play_def
      await_recording_def after_recording_def stopRecording_def drawFrame_def Let_def
      split: if_splits list.splits option.splits promise.splits prod.splits)
  done

lemma timer_armed_new: "timer_armed t (new_job e c)"
  by (simp add: timer_armed_def new_job_def)

lemma timer_armed_mono: "timer_armed t j \<Longrightarrow> t \<le> t' \<Longrightarrow> timer_armed t' j"
  by (fastforce simp: timer_armed_def)

lemma timer_armed_step: "timer_armed t j \<Longrightarrow> timer_armed t (snd (job_step t ev (u, j)))"
  apply (cases ev)
  apply (auto simp: timer_armed_def export_throw_def after_seeked_def after_play_def
      await_recording_def after_recording_def stopRecording_def drawFrame_def Let_def
      split: if_splits list.splits option.splits promise.splits prod.splits)
  done

lemma recorder_needs_new: "has_MediaRecorder e \<Longrightarrow> recorder_needs (new_job e c)"
  by (simp add: recorder_needs_def new_job_def)

lemma recorder_needs_step: "recorder_needs j \<Longrightarrow> recorder_needs (snd (job_step t ev (u, j)))"
  apply (cases ev)
  apply (auto simp: recorder_needs_def export_throw_def after_seeked_def after_play_def
      await_recording_def after_recording_def stopRecording_def drawFrame_def Let_def
      split: if_splits list.splits option.splits promise.splits prod.splits)
  done

section \<open>Evaluating the examples\<close>

lemmas example_defs = example_environment_def example_clip_a_def example_clip_b_def
  example_ui_def example_recording_trace_def example_second_export_trace_def

lemmas run_defs = run_def step_def initial_def export_enabled_def
    exportPortraitClip_def new_job_def after_seeked_def after_play_def await_recording_def
    after_recording_def export_throw_def stopRecording_def drawFrame_def drawFrame_rect_def
    preferredMimeTypes_def canvas_width_def canvas_height_def Let_def

lemma example_recording_run:
  "run example_recording_trace (initial example_ui) =
     \<lparr>sys_ui = example_ui\<lparr>exportingClipId := Some ''a''\<rparr>,
      sys_jobs =
        [(new_job example_environment example_clip_a)
           \<lparr>pc := AwaitRecording, composedTracks := [0, 2], sourceTracks := [1, 2],
            mimeType := Some ''video/webm'', recorder_state := Recording,
            recorder_start_calls := 1, recorder_started_at := Some 150, play_calls := 1,
            timers := [(650, 10000)], raf_pending := True\<rparr>],
      sys_now = 650, view_open = True\<rparr>"
  by (simp add: run_defs example_defs)

lemma example_await_play:
  "run (take 3 example_recording_trace) (initial example_ui) =
     \<lparr>sys_ui = example_ui\<lparr>exportingClipId := Some ''a''\<rparr>,
      sys_jobs =
        [(new_job example_environment example_clip_a)
           \<lparr>pc := AwaitPlay, composedTracks := [0, 2], sourceTracks := [1, 2],
            mimeType := Some ''video/webm'', recorder_state := Recording,
            recorder_start_calls := 1, recorder_started_at := Some 150, play_calls := 1\<rparr>],
      sys_now = 150, view_open = True\<rparr>"
  by (simp add: run_defs example_defs)

lemma stop_once_funpow:
  "\<not> recordingStopped j \<Longrightarrow> 0 < n \<Longrightarrow> (stopRecording ^^ n) j = stopRecording j"
proof (induction n)
  case 0
  then show ?case by simp
next
  case (Suc n)
  show ?case
  proof (cases "n = 0")
    case True
    then show ?thesis by simp
  next
    case False
    with Suc have IH: "(stopRecording ^^ n) j = stopRecording j" by simp
    have "(stopRecording ^^ Suc n) j = stopRecording ((stopRecording ^^ n) j)" by simp
    also have "\<dots> = stopRecording (stopRecording j)" by (simp only: IH)
    also have "\<dots> = stopRecording j" by (simp add: stopRecording_def)
    finally show ?thesis .
  qed
qed

section \<open>Claims about the segment planner\<close>

text \<open>
  Claim C1, amended.  In the arithmetic of doubles, for a video duration that is a
  positive double below \<open>2 ^ 53\<close> and a slice length that is a positive whole number,
  \<open>autoGenerateClips\<close> returns and stores a non-empty list of segments: there are
  \<open>\<lceil>duration / clipDuration\<rceil>\<close> of them, their start times increase strictly, the
  half-open intervals \<open>[start, start + duration)\<close> are pairwise disjoint and their
  union is \<open>[0, video.duration)\<close>, the first starts at 0, each next one starts where
  its predecessor ends, the last ends at \<open>video.duration\<close>, every segment but the last
  has length \<open>clipDuration\<close> and the last has a positive length of at most
  \<open>clipDuration\<close>, and the \<open>i\<close>-th title (counting from 0) is \<open>Clip\<close> followed by
  \<open>i + 1\<close> in decimal.  For a non-positive video duration the stored list is empty.
  With duration 95 and slice length 30 the list is exactly the four segments
  \<open>(0, 30)\<close>, \<open>(30, 30)\<close>, \<open>(60, 30)\<close>, \<open>(90, 5)\<close>.
\<close>

theorem autoGenerateClips_partition:
  "(0 < v_duration video \<and> v_duration video < 2 ^ 53 \<and>
    round_double (v_duration video) = v_duration video \<and>
    0 < n \<and> clipDuration s = of_int n \<longrightarrow>
      (\<exists>cs. autoGenerateClips_double video s = Some (s\<lparr>clips := cs\<rparr>) \<and>
         cs \<noteq> [] \<and>
         length cs = nat \<lceil>v_duration video / clipDuration s\<rceil> \<and>
         sorted_wrt (<) (map start cs) \<and>
         (\<Union>c\<in>set cs. {start c ..< start c + duration c}) = {0 ..< v_duration video} \<and>
         (\<forall>i<length cs. \<forall>j<length cs. i \<noteq> j \<longrightarrow>
             {start (cs ! i) ..< start (cs ! i) + duration (cs ! i)} \<inter>
             {start (cs ! j) ..< start (cs ! j) + duration (cs ! j)} = {}) \<and>
         start (hd cs) = 0 \<and>
         (\<forall>i. Suc i < length cs \<longrightarrow>
             start (cs ! Suc i) = start (cs ! i) + duration (cs ! i) \<and>
             duration (cs ! i) = clipDuration s) \<and>
         start (last cs) + duration (last cs) = v_duration video \<and>
         0 < duration (last cs) \<and> duration (last cs) \<le> clipDuration s \<and>
         (\<forall>i<length cs. title (cs ! i) = ''Clip '' @ string_of_nat (i + 1)))) \<and>
   (v_duration video \<le> 0 \<longrightarrow> autoGenerateClips_double video s = Some (s\<lparr>clips := []\<rparr>)) \<and>
   (v_duration video = 95 \<and> clipDuration s = 30 \<longrightarrow>
      autoGenerateClips_double video s =
        Some (s\<lparr>clips := [\<lparr>start = 0, duration = 30, title = ''Clip 1''\<rparr>,
                            \<lparr>start = 30, duration = 30, title = ''Clip 2''\<rparr>,
                            \<lparr>start = 60, duration = 30, title = ''Clip 3''\<rparr>,
                            \<lparr>start = 90, duration = 5, title = ''Clip 4''\<rparr>]\<rparr>))"
proof (intro conjI impI)
  assume pos: "0 < v_duration video \<and> v_duration video < 2 ^ 53 \<and>
    round_double (v_duration video) = v_duration video \<and>
    0 < n \<and> clipDuration s = of_int n"
  then have D: "0 < v_duration video" and L: "0 < clipDuration s" by simp_all
  from pos have "autoGenerateClips_loop_double (v_duration video) (clipDuration s) (of_int 0) [] =
      autoGenerateClips_loop (v_duration video) (clipDuration s) (of_int 0) []"
    by (intro autoGenerateClips_loop_double_exact[where n = n]) simp_all
  then have same: "autoGenerateClips_loop_double (v_duration video) (clipDuration s) 0 [] =
      autoGenerateClips_loop (v_duration video) (clipDuration s) 0 []"
    by simp
  from autoGenerateClips_loop_nth[OF L, of "v_duration video"]
  obtain cs where run: "autoGenerateClips_loop (v_duration video) (clipDuration s) 0 [] = Some cs"
    and len: "length cs = nat \<lceil>v_duration video / clipDuration s\<rceil>"
    and nth: "\<forall>i<length cs. start (cs ! i) = of_nat i * clipDuration s \<and>
               duration (cs ! i) = min (clipDuration s) (v_duration video - of_nat i * clipDuration s) \<and>
               title (cs ! i) = ''Clip '' @ string_of_nat (i + 1)"
    by blast
  from nth have nth': "\<forall>i<length cs. start (cs ! i) = of_nat i * clipDuration s \<and>
               duration (cs ! i) = min (clipDuration s) (v_duration video - of_nat i * clipDuration s)"
    by simp
  note P = planned_properties[OF L D len nth']
  from nth have titles: "\<forall>i<length cs. title (cs ! i) = ''Clip '' @ string_of_nat (i + 1)"
    by simp
  have "autoGenerateClips_double video s = Some (s\<lparr>clips := cs\<rparr>)"
    by (simp add: autoGenerateClips_double_def same run)
  with len titles P
  show "\<exists>cs. autoGenerateClips_double video s = Some (s\<lparr>clips := cs\<rparr>) \<and>
         cs \<noteq> [] \<and>
         length cs = nat \<lceil>v_duration video / clipDuration s\<rceil> \<and>
         sorted_wrt (<) (map start cs) \<and>
         (\<Union>c\<in>set cs. {start c ..< start c + duration c}) = {0 ..< v_duration video} \<and>
         (\<forall>i<length cs. \<forall>j<length cs. i \<noteq> j \<longrightarrow>
             {start (cs ! i) ..< start (cs ! i) + duration (cs ! i)} \<inter>
             {start (cs ! j) ..< start (cs ! j) + duration (cs ! j)} = {}) \<and>
         start (hd cs) = 0 \<and>
         (\<forall>i. Suc i < length cs \<longrightarrow>
             start (cs ! Suc i) = start (cs ! i) + duration (cs ! i) \<and>
             duration (cs ! i) = clipDuration s) \<and>
         start (last cs) + duration (last cs) = v_duration video \<and>
         0 < duration (last cs) \<and> duration (last cs) \<le> clipDuration s \<and>
         (\<forall>i<length cs. title (cs ! i) = ''Clip '' @ string_of_nat (i + 1))"
    by blast
next
  assume "v_duration video \<le> 0"
  then show "autoGenerateClips_double video s = Some (s\<lparr>clips := []\<rparr>)"
    by (simp add: autoGenerateClips_double_def autoGenerateClips_loop_double_exit)
next
  assume a: "v_duration video = 95 \<and> clipDuration s = 30"
  have "\<bar>95 :: int\<bar> < 2 ^ 53" by simp
  from round_double_of_int[OF this] have r: "round_double 95 = 95" by simp
  have "autoGenerateClips_loop_double 95 (of_int 30) (of_int 0) [] =
      autoGenerateClips_loop 95 (of_int 30) (of_int 0) []"
    by (intro autoGenerateClips_loop_double_exact[where n = 30]) (simp_all add: r)
  then have "autoGenerateClips_loop_double 95 30 0 [] = autoGenerateClips_loop 95 30 0 []"
    by simp
  with a show "autoGenerateClips_double video s =
        Some (s\<lparr>clips := [\<lparr>start = 0, duration = 30, title = ''Clip 1''\<rparr>,
                            \<lparr>start = 30, duration = 30, title = ''Clip 2''\<rparr>,
                            \<lparr>start = 60, duration = 30, title = ''Clip 3''\<rparr>,
                            \<lparr>start = 90, duration = 5, title = ''Clip 4''\<rparr>]\<rparr>)"
    by (simp add: autoGenerateClips_double_def example_95_30)
qed

theorem autoGenerateClips_partition_witness:
  "autoGenerateClips_double \<lparr>v_id = ''v'', v_file_path = ''f'', v_duration = 95\<rparr>
     \<lparr>clips = [], clipDuration = 30, generating = False, generatedClips = [],
      exportingClipId = None, errorMessage = None, videoUrl = ''u''\<rparr> =
   Some \<lparr>clips = [\<lparr>start = 0, duration = 30, title = ''Clip 1''\<rparr>,
                  \<lparr>start = 30, duration = 30, title = ''Clip 2''\<rparr>,
                  \<lparr>start = 60, duration = 30, title = ''Clip 3''\<rparr>,
                  \<lparr>start = 90, duration = 5, title = ''Clip 4''\<rparr>],
         clipDuration = 30, generating = False, generatedClips = [],
      exportingClipId = None, errorMessage = None, videoUrl = ''u''\<rparr> \<and>
   (\<exists>cs. autoGenerateClips_double \<lparr>v_id = ''v'', v_file_path = ''f'', v_duration = 95\<rparr>
     \<lparr>clips = [], clipDuration = 30, generating = False, generatedClips = [],
      exportingClipId = None, errorMessage = None, videoUrl = ''u''\<rparr> =
      Some \<lparr>clips = cs, clipDuration = 30, generating = False, generatedClips = [],
      exportingClipId = None, errorMessage = None, videoUrl = ''u''\<rparr> \<and>
      length cs = 4 \<and> start (last cs) + duration (last cs) = 95) \<and>
   autoGenerateClips_double \<lparr>v_id = ''v'', v_file_path = ''f'', v_duration = 0\<rparr>
     \<lparr>clips = [], clipDuration = 30, generating = False, generatedClips = [],
      exportingClipId = None, errorMessage = None, videoUrl = ''u''\<rparr> =
   Some \<lparr>clips = [], clipDuration = 30, generating = False, generatedClips = [],
      exportingClipId = None, errorMessage = None, videoUrl = ''u''\<rparr>"
proof -
  have "\<bar>95 :: int\<bar> < 2 ^ 53" by simp
  from round_double_of_int[OF this] have r: "round_double 95 = 95" by simp
  from r autoGenerateClips_partition
    [where n = 30 and video = "\<lparr>v_id = ''v'', v_file_path = ''f'', v_duration = 95\<rparr>"
       and s = "\<lparr>clips = [], clipDuration = 30, generating = False, generatedClips = [],
      exportingClipId = None, errorMessage = None, videoUrl = ''u''\<rparr>"]
    autoGenerateClips_partition
    [where n = 30 and video = "\<lparr>v_id = ''v'', v_file_path = ''f'', v_duration = 0\<rparr>"
       and s = "\<lparr>clips = [], clipDuration = 30, generating = False, generatedClips = [],
      exportingClipId = None, errorMessage = None, videoUrl = ''u''\<rparr>"]
  show ?thesis by (simp add: ceiling_eq_iff)
qed

text \<open>
  The claim as stated, for every positive duration and slice length, fails in the
  arithmetic of doubles.  With the duration 1 and the slice length 0.1, that is the
  double nearest to \<open>1 / 10\<close>, the sums \<open>currentTime += duration\<close> round: the cursor
  after ten slices is \<open>1 - 2 ^ - 53\<close>, still below the duration, and an eleventh
  segment of length \<open>2 ^ - 53\<close> with the title \<open>Clip 11\<close> is stored, where
  \<open>\<lceil>1 / 0.1\<rceil>\<close> is 10.  The fourth segment starts at \<open>0.30000000000000004\<close>, and the
  ninth at \<open>0.7999999999999999\<close>.
\<close>

theorem autoGenerateClips_double_counterexample:
  "round_double (1 / 10) = 3602879701896397 / 36028797018963968 \<and>
   nat \<lceil>1 / (3602879701896397 / 36028797018963968 :: rat)\<rceil> = 10 \<and>
   autoGenerateClips_double \<lparr>v_id = ''v'', v_file_path = ''f'', v_duration = 1\<rparr>
     \<lparr>clips = [], clipDuration = 3602879701896397 / 36028797018963968, generating = False, generatedClips = [],
      exportingClipId = None, errorMessage = None, videoUrl = ''u''\<rparr> =
   Some \<lparr>clips = [
        \<lparr>start = 0,
          duration = 3602879701896397 / 36028797018963968, title = ''Clip 1''\<rparr>,
        \<lparr>start = 3602879701896397 / 36028797018963968,
          duration = 3602879701896397 / 36028797018963968, title = ''Clip 2''\<rparr>,
        \<lparr>start = 3602879701896397 / 18014398509481984,
          duration = 3602879701896397 / 36028797018963968, title = ''Clip 3''\<rparr>,
        \<lparr>start = 1351079888211149 / 4503599627370496,
          duration = 3602879701896397 / 36028797018963968, title = ''Clip 4''\<rparr>,
        \<lparr>start = 3602879701896397 / 9007199254740992,
          duration = 3602879701896397 / 36028797018963968, title = ''Clip 5''\<rparr>,
        \<lparr>start = 1 / 2,
          duration = 3602879701896397 / 36028797018963968, title = ''Clip 6''\<rparr>,
        \<lparr>start = 5404319552844595 / 9007199254740992,
          duration = 3602879701896397 / 36028797018963968, title = ''Clip 7''\<rparr>,
        \<lparr>start = 3152519739159347 / 4503599627370496,
          duration = 3602879701896397 / 36028797018963968, title = ''Clip 8''\<rparr>,
        \<lparr>start = 7205759403792793 / 9007199254740992,
          duration = 3602879701896397 / 36028797018963968, title = ''Clip 9''\<rparr>,
        \<lparr>start = 2026619832316723 / 2251799813685248,
          duration = 3602879701896397 / 36028797018963968, title = ''Clip 10''\<rparr>,
        \<lparr>start = 9007199254740991 / 9007199254740992,
          duration = 1 / 9007199254740992, title = ''Clip 11''\<rparr>], clipDuration = 3602879701896397 / 36028797018963968, generating = False, generatedClips = [],
      exportingClipId = None, errorMessage = None, videoUrl = ''u''\<rparr>"
proof -
  have "\<lceil>1 / (3602879701896397 / 36028797018963968 :: rat)\<rceil> = 10"
    by (simp add: ceiling_eq_iff)
  then have c: "nat \<lceil>1 / (3602879701896397 / 36028797018963968 :: rat)\<rceil> = 10"
    by simp
  have d: "round_double (1 / 10) = 3602879701896397 / 36028797018963968"
    by (simp add: round_double_tenths)
  from example_tenths_double c d show ?thesis
    by (simp add: autoGenerateClips_double_def)
qed



text \<open>
  Claim C7.  \<open>generateClips\<close> on an empty draft list, and on a draft list that contains
  a draft of non-positive duration, only raises an alert: the component state is
  returned unchanged (drafts and persisted clips included), and the log has no
  user lookup, no insert and no query.
\<close>

theorem generateClips_validation:
  "(clips s = [] \<longrightarrow> generateClips b video s = (s, [Alert ''Please add some clips first''])) \<and>
   (clips s \<noteq> [] \<and> (\<exists>c\<in>set (clips s). duration c \<le> 0) \<longrightarrow>
      generateClips b video s = (s, [Alert ''Clip duration must be greater than 0 seconds''])) \<and>
   (clips s = [] \<or> (\<exists>c\<in>set (clips s). duration c \<le> 0) \<longrightarrow>
      fst (generateClips b video s) = s \<and>
      AuthGetUser \<notin> set (snd (generateClips b video s)) \<and>
      (\<forall>r. InsertClip r \<notin> set (snd (generateClips b video s))) \<and>
      (\<forall>i. SelectClips i \<notin> set (snd (generateClips b video s))))"
  by (auto simp: generateClips_def list_ex_iff)

theorem generateClips_validation_witness:
  "generateClips \<lparr>current_user = Some ''u'', insert_error = (\<lambda>r. False), select_clips = Some []\<rparr>
     \<lparr>v_id = ''v'', v_file_path = ''f'', v_duration = 95\<rparr>
     \<lparr>clips = [], clipDuration = 30, generating = False, generatedClips = [],
      exportingClipId = None, errorMessage = None, videoUrl = ''u''\<rparr> =
   (\<lparr>clips = [], clipDuration = 30, generating = False, generatedClips = [],
      exportingClipId = None, errorMessage = None, videoUrl = ''u''\<rparr>,
    [Alert ''Please add some clips first'']) \<and>
   generateClips \<lparr>current_user = Some ''u'', insert_error = (\<lambda>r. False), select_clips = Some []\<rparr>
     \<lparr>v_id = ''v'', v_file_path = ''f'', v_duration = 95\<rparr>
     \<lparr>clips = [\<lparr>start = 0, duration = 0, title = ''Clip 1''\<rparr>], clipDuration = 30,
      generating = False, generatedClips = [],
      exportingClipId = None, errorMessage = None, videoUrl = ''u''\<rparr> =
   (\<lparr>clips = [\<lparr>start = 0, duration = 0, title = ''Clip 1''\<rparr>], clipDuration = 30,
      generating = False, generatedClips = [],
      exportingClipId = None, errorMessage = None, videoUrl = ''u''\<rparr>,
    [Alert ''Clip duration must be greater than 0 seconds''])"
  using generateClips_validation
     [of "\<lparr>clips = [], clipDuration = 30, generating = False, generatedClips = [],
      exportingClipId = None, errorMessage = None, videoUrl = ''u''\<rparr>"
      "\<lparr>current_user = Some ''u'', insert_error = (\<lambda>r. False), select_clips = Some []\<rparr>"
      "\<lparr>v_id = ''v'', v_file_path = ''f'', v_duration = 95\<rparr>"]
    generateClips_validation
     [of "\<lparr>clips = [\<lparr>start = 0, duration = 0, title = ''Clip 1''\<rparr>], clipDuration = 30,
      generating = False, generatedClips = [],
      exportingClipId = None, errorMessage = None, videoUrl = ''u''\<rparr>"
      "\<lparr>current_user = Some ''u'', insert_error = (\<lambda>r. False), select_clips = Some []\<rparr>"
      "\<lparr>v_id = ''v'', v_file_path = ''f'', v_duration = 95\<rparr>"]
  by simp

section \<open>Claims about the frame geometry\<close>

lemma drawFrame_rect_wide:
  assumes "0 < w" "0 < h" "of_nat w / of_nat h > (720 / 1280 :: rat)"
  shows "drawFrame_rect w h =
     Some \<lparr>dx = - (of_nat w * (1280 / of_nat h) - 720) / 2, dy = 0,
           dWidth = of_nat w * (1280 / of_nat h), dHeight = 1280\<rparr>"
  using assms by (simp add: drawFrame_rect_def canvas_width_def canvas_height_def Let_def)

lemma drawFrame_rect_tall:
  assumes "0 < w" "0 < h" "\<not> of_nat w / of_nat h > (720 / 1280 :: rat)"
  shows "drawFrame_rect w h =
     Some \<lparr>dx = 0, dy = - (of_nat h * (720 / of_nat w) - 1280) / 2,
           dWidth = 720, dHeight = of_nat h * (720 / of_nat w)\<rparr>"
  using assms by (simp add: drawFrame_rect_def canvas_width_def canvas_height_def Let_def)








lemma example_1920_1080_double:
  "drawFrame_rect_double 1920 1080 =
    Some \<lparr>dx = - (1710351420984889 / 2199023255552), dy = 0,
          dWidth = 2501999792983609 / 1099511627776, dHeight = 1280\<rparr>"
  by (simp add: drawFrame_rect_double_def canvas_width_def canvas_height_def Let_def
      round_double_1920_1080)

text \<open>
  Claim C2.  For a source of positive size with
  \<open>videoWidth / videoHeight > 720 / 1280\<close>, the draw step computes
  \<open>drawHeight = 1280\<close> (the canvas height), \<open>drawWidth = videoWidth * (1280 / videoHeight)\<close>,
  \<open>offsetX = -(drawWidth - 720) / 2\<close> and \<open>offsetY = 0\<close>.  For a 1920 by 1080 source
  this is \<open>drawWidth = 1280 * 1920 / 1080\<close>, within 1 of 2276, and an \<open>offsetX\<close> within
  1 of -778.
\<close>

theorem drawFrame_rect_landscape:
  "(0 < w \<and> 0 < h \<and> of_nat w / of_nat h > (720 / 1280 :: rat) \<longrightarrow>
      (\<exists>r. drawFrame_rect w h = Some r \<and>
         dHeight r = canvas_height \<and> canvas_height = 1280 \<and>
         dWidth r = of_nat w * (1280 / of_nat h) \<and>
         dx r = - (dWidth r - 720) / 2 \<and>
         dy r = 0)) \<and>
   (\<exists>r. drawFrame_rect 1920 1080 = Some r \<and>
      dHeight r = 1280 \<and>
      dWidth r = 1280 * 1920 / 1080 \<and> \<bar>dWidth r - 2276\<bar> < 1 \<and>
      dx r = - (dWidth r - 720) / 2 \<and> \<bar>dx r - (- 778)\<bar> < 1 \<and>
      dy r = 0)"
proof (intro conjI impI)
  assume a: "0 < w \<and> 0 < h \<and> of_nat w / of_nat h > (720 / 1280 :: rat)"
  then have "drawFrame_rect w h =
     Some \<lparr>dx = - (of_nat w * (1280 / of_nat h) - 720) / 2, dy = 0,
           dWidth = of_nat w * (1280 / of_nat h), dHeight = 1280\<rparr>"
    by (intro drawFrame_rect_wide) simp_all
  then show "\<exists>r. drawFrame_rect w h = Some r \<and>
         dHeight r = canvas_height \<and> canvas_height = 1280 \<and>
         dWidth r = of_nat w * (1280 / of_nat h) \<and>
         dx r = - (dWidth r - 720) / 2 \<and>
         dy r = 0"
    by (simp add: canvas_height_def)
next
  have "drawFrame_rect 1920 1080 =
     Some \<lparr>dx = - (of_nat 1920 * (1280 / of_nat 1080) - 720) / 2, dy = 0,
           dWidth = of_nat 1920 * (1280 / of_nat 1080), dHeight = 1280\<rparr>"
    by (intro drawFrame_rect_wide) simp_all
  then show "\<exists>r. drawFrame_rect 1920 1080 = Some r \<and>
      dHeight r = 1280 \<and>
      dWidth r = 1280 * 1920 / 1080 \<and> \<bar>dWidth r - 2276\<bar> < 1 \<and>
      dx r = - (dWidth r - 720) / 2 \<and> \<bar>dx r - (- 778)\<bar> < 1 \<and>
      dy r = 0"
    by simp
qed

theorem drawFrame_rect_landscape_witness:
  "0 < (1920::nat) \<and> 0 < (1080::nat) \<and> (720 / 1280 :: rat) < of_nat 1920 / of_nat 1080 \<and>
   (\<exists>r. drawFrame_rect 1920 1080 = Some r \<and> dHeight r = 1280 \<and> dy r = 0 \<and>
       dWidth r = 20480 / 9 \<and> dx r = - (7000 / 9))"
  using drawFrame_rect_landscape[of 1920 1080] by (auto simp: canvas_height_def)




section \<open>Claims about the export job\<close>

text \<open>
  Claim C5, amended.  \<open>stopRecording\<close> is idempotent.  Its first invocation sets the
  flag, calls \<open>recorder.stop()\<close> once and \<open>sourceVideo.pause()\<close> once, and calls
  \<open>stop()\<close> on every track of \<open>composedStream\<close> and then on every track of
  \<open>sourceStream\<close>; every later invocation changes nothing.  In every reachable state
  of every job, \<open>recorder.stop()\<close> and \<open>pause()\<close> have been called once if the flag is
  set and never otherwise, and a track has received as many \<open>stop()\<close> calls as the
  number of times it occurs in the two streams together: twice for a track that
  belongs to both, as the audio tracks of the source do.
\<close>

theorem stopRecording_once:
  "stopRecording (stopRecording j) = stopRecording j \<and>
   (recordingStopped j \<longrightarrow> stopRecording j = j) \<and>
   (\<not> recordingStopped j \<longrightarrow>
      recordingStopped (stopRecording j) \<and>
      recorder_stop_calls (stopRecording j) = recorder_stop_calls j + 1 \<and>
      pause_calls (stopRecording j) = pause_calls j + 1 \<and>
      track_stop_calls (stopRecording j) =
        track_stop_calls j @ composedTracks j @ sourceTracks j \<and>
      (\<forall>n>0. (stopRecording ^^ n) j = stopRecording j)) \<and>
   (\<forall>k\<in>set (sys_jobs (run evs (initial ui))).
      recorder_stop_calls k = (if recordingStopped k then 1 else 0) \<and>
      pause_calls k = (if recordingStopped k then 1 else 0) \<and>
      (\<forall>x. count_list (track_stop_calls k) x =
         (if recordingStopped k
          then count_list (composedTracks k) x + count_list (sourceTracks k) x else 0)))"
proof -
  have "\<forall>k\<in>set (sys_jobs (run evs (initial ui))). stop_once k"
    by (rule run_jobs_invariant[where P = "\<lambda>t. stop_once"])
      (simp_all add: stop_once_new stop_once_step initial_def)
  then have "\<forall>k\<in>set (sys_jobs (run evs (initial ui))).
      recorder_stop_calls k = (if recordingStopped k then 1 else 0) \<and>
      pause_calls k = (if recordingStopped k then 1 else 0) \<and>
      (\<forall>x. count_list (track_stop_calls k) x =
         (if recordingStopped k
          then count_list (composedTracks k) x + count_list (sourceTracks k) x else 0))"
    by (simp add: stop_once_def)
  moreover have "stopRecording (stopRecording j) = stopRecording j"
    by (simp add: stopRecording_def)
  moreover have "recordingStopped j \<longrightarrow> stopRecording j = j"
    by (simp add: stopRecording_def)
  moreover have "\<not> recordingStopped j \<longrightarrow>
      recordingStopped (stopRecording j) \<and>
      recorder_stop_calls (stopRecording j) = recorder_stop_calls j + 1 \<and>
      pause_calls (stopRecording j) = pause_calls j + 1 \<and>
      track_stop_calls (stopRecording j) =
        track_stop_calls j @ composedTracks j @ sourceTracks j \<and>
      (\<forall>n>0. (stopRecording ^^ n) j = stopRecording j)"
    using stop_once_funpow[of j] by (simp add: stopRecording_def)
  ultimately show ?thesis by blast
qed

theorem stopRecording_once_witness:
  "sys_jobs (run (example_recording_trace @
       [(10000, JobEvent 0 TimerFired), (2, JobEvent 0 RecorderStop), (5, JobEvent 0 TimerFired)])
     (initial example_ui)) ! 0
   \<in> set (sys_jobs (run (example_recording_trace @
       [(10000, JobEvent 0 TimerFired), (2, JobEvent 0 RecorderStop), (5, JobEvent 0 TimerFired)])
     (initial example_ui))) \<and>
   recordingStopped (sys_jobs (run (example_recording_trace @
       [(10000, JobEvent 0 TimerFired), (2, JobEvent 0 RecorderStop), (5, JobEvent 0 TimerFired)])
     (initial example_ui)) ! 0) \<and>
   recorder_stop_calls (sys_jobs (run (example_recording_trace @
       [(10000, JobEvent 0 TimerFired), (2, JobEvent 0 RecorderStop), (5, JobEvent 0 TimerFired)])
     (initial example_ui)) ! 0) = 1 \<and>
   pause_calls (sys_jobs (run (example_recording_trace @
       [(10000, JobEvent 0 TimerFired), (2, JobEvent 0 RecorderStop), (5, JobEvent 0 TimerFired)])
     (initial example_ui)) ! 0) = 1 \<and>
   \<not> recordingStopped (sys_jobs (run example_recording_trace (initial example_ui)) ! 0) \<and>
   track_stop_calls
     (stopRecording (sys_jobs (run example_recording_trace (initial example_ui)) ! 0))
     = [0, 2, 1, 2] \<and>
   (stopRecording ^^ 3) (sys_jobs (run example_recording_trace (initial example_ui)) ! 0)
     = stopRecording (sys_jobs (run example_recording_trace (initial example_ui)) ! 0) \<and>
   recordingStopped
     (stopRecording (sys_jobs (run example_recording_trace (initial example_ui)) ! 0)) \<and>
   stopRecording
     (stopRecording (sys_jobs (run example_recording_trace (initial example_ui)) ! 0))
     = stopRecording (sys_jobs (run example_recording_trace (initial example_ui)) ! 0)"
proof -
  let ?s = "run (example_recording_trace @
       [(10000, JobEvent 0 TimerFired), (2, JobEvent 0 RecorderStop), (5, JobEvent 0 TimerFired)])
     (initial example_ui)"
  let ?J = "sys_jobs (run example_recording_trace (initial example_ui)) ! 0"
  note T = stopRecording_once[of ?J "example_recording_trace @
       [(10000, JobEvent 0 TimerFired), (2, JobEvent 0 RecorderStop), (5, JobEvent 0 TimerFired)]"
       example_ui]
  have mem: "sys_jobs ?s ! 0 \<in> set (sys_jobs ?s)"
    by (simp add: run_append example_recording_run) (simp add: run_defs example_defs)
  have stopped: "recordingStopped (sys_jobs ?s ! 0)"
    by (simp add: run_append example_recording_run) (simp add: run_defs example_defs)
  from T[THEN conjunct2, THEN conjunct2, THEN conjunct2, rule_format, OF mem] stopped
  have a: "recorder_stop_calls (sys_jobs ?s ! 0) = 1 \<and> pause_calls (sys_jobs ?s ! 0) = 1"
    by simp
  have running: "\<not> recordingStopped ?J"
    by (simp add: example_recording_run new_job_def)
  from T[THEN conjunct2, THEN conjunct2, THEN conjunct1, THEN mp, OF running]
  have b: "recordingStopped (stopRecording ?J) \<and>
      track_stop_calls (stopRecording ?J) =
        track_stop_calls ?J @ composedTracks ?J @ sourceTracks ?J \<and>
      (\<forall>n>0. (stopRecording ^^ n) ?J = stopRecording ?J)"
    by blast
  then have c: "track_stop_calls (stopRecording ?J) = [0, 2, 1, 2]"
    by (simp add: example_recording_run new_job_def)
  from b have d: "(stopRecording ^^ 3) ?J = stopRecording ?J"
    by (metis zero_less_numeral)
  from T[THEN conjunct1] have e: "stopRecording (stopRecording ?J) = stopRecording ?J" .
  from mem stopped a running b c d e show ?thesis by blast
qed

text \<open>
  The claim as it was stated fails on the example: when the timer fires, the audio
  track 2 of the source receives two \<open>stop()\<close> calls, one through each stream.
\<close>

theorem stopRecording_twice_counterexample:
  "count_list
     (track_stop_calls
        (sys_jobs (run (example_recording_trace @ [(10000, JobEvent 0 TimerFired)])
           (initial example_ui)) ! 0)) 2 = 2"
  by (simp add: run_append example_recording_run) (simp add: run_defs example_defs)

text \<open>
  Claim C4, amended.  The stop timer is armed by the code that runs when
  \<open>sourceVideo.play()\<close> resolves, with the delay \<open>clip.duration * 1000\<close> (10000 for a
  clip of 10 seconds), and by no other event; \<open>recorder.start()\<close> has run before,
  when the seek completed.  The timer callback runs \<open>stopRecording\<close> when the clock
  has reached the arming time plus the delay, and not before.  In every reachable
  state a job has at most one pending timer; its delay is \<open>clip.duration * 1000\<close>,
  and it was armed at or after the time at which the recorder was started: the
  timer is due \<open>clip.duration\<close> seconds after \<open>play()\<close> resolved, which is
  \<open>clip.duration\<close> seconds plus the latency of \<open>play()\<close> after \<open>recorder.start()\<close>.
\<close>

theorem stop_timer_after_play:
  "(pc j = AwaitSeeked \<and> pc (snd (job_step t Seeked (u, j))) = AwaitPlay \<longrightarrow>
      recorder_started_at (snd (job_step t Seeked (u, j))) = Some t \<and>
      recorder_state (snd (job_step t Seeked (u, j))) = Recording \<and>
      timers (snd (job_step t Seeked (u, j))) = timers j) \<and>
   (pc j = AwaitPlay \<longrightarrow>
      timers (snd (job_step t PlayResolved (u, j))) =
        timers j @ [(t, c_duration (job_clip j) * 1000)] \<and>
      recorder_started_at (snd (job_step t PlayResolved (u, j))) = recorder_started_at j) \<and>
   (pc j = AwaitPlay \<and> c_duration (job_clip j) = 10 \<and> timers j = [] \<longrightarrow>
      timers (snd (job_step t PlayResolved (u, j))) = [(t, 10000)]) \<and>
   (ev \<noteq> PlayResolved \<longrightarrow>
      set (timers (snd (job_step t ev (u, j)))) \<subseteq> set (timers j)) \<and>
   (timers j = (a, d) # ts \<longrightarrow>
      job_step t TimerFired (u, j) =
        (if a + max 0 d \<le> t then (u, stopRecording (j\<lparr>timers := ts\<rparr>)) else (u, j))) \<and>
   (\<forall>k\<in>set (sys_jobs (run evs (initial ui))).
      length (timers k) \<le> 1 \<and>
      (\<forall>(a, d)\<in>set (timers k).
         d = c_duration (job_clip k) * 1000 \<and>
         a \<le> sys_now (run evs (initial ui)) \<and>
         (\<exists>t0. recorder_started_at k = Some t0 \<and> t0 \<le> a)))"
proof -
  have "\<forall>k\<in>set (sys_jobs (run evs (initial ui))).
      timer_armed (sys_now (run evs (initial ui))) k"
    by (rule run_jobs_invariant[where P = timer_armed])
      (simp_all add: timer_armed_new timer_armed_step timer_armed_mono initial_def)
  then have inv: "\<forall>k\<in>set (sys_jobs (run evs (initial ui))).
      length (timers k) \<le> 1 \<and>
      (\<forall>(a, d)\<in>set (timers k).
         d = c_duration (job_clip k) * 1000 \<and>
         a \<le> sys_now (run evs (initial ui)) \<and>
         (\<exists>t0. recorder_started_at k = Some t0 \<and> t0 \<le> a))"
    by (simp add: timer_armed_def)
  have seek: "pc j = AwaitSeeked \<and> pc (snd (job_step t Seeked (u, j))) = AwaitPlay \<longrightarrow>
      recorder_started_at (snd (job_step t Seeked (u, j))) = Some t \<and>
      recorder_state (snd (job_step t Seeked (u, j))) = Recording \<and>
      timers (snd (job_step t Seeked (u, j))) = timers j"
    by (auto simp: after_seeked_def export_throw_def Let_def split: option.splits if_splits)
  have play: "pc j = AwaitPlay \<longrightarrow>
      timers (snd (job_step t PlayResolved (u, j))) =
        timers j @ [(t, c_duration (job_clip j) * 1000)] \<and>
      recorder_started_at (snd (job_step t PlayResolved (u, j))) = recorder_started_at j"
    by (auto simp: after_play_def await_recording_def after_recording_def export_throw_def
        stopRecording_def Let_def split: promise.splits)
  have ten: "pc j = AwaitPlay \<and> c_duration (job_clip j) = 10 \<and> timers j = [] \<longrightarrow>
      timers (snd (job_step t PlayResolved (u, j))) = [(t, 10000)]"
    using play by simp
  have other: "ev \<noteq> PlayResolved \<longrightarrow>
      set (timers (snd (job_step t ev (u, j)))) \<subseteq> set (timers j)"
    by (cases ev)
      (auto simp: export_throw_def after_seeked_def await_recording_def after_recording_def
        stopRecording_def drawFrame_def Let_def
        split: if_splits list.splits option.splits promise.splits prod.splits)
  have fire: "timers j = (a, d) # ts \<longrightarrow>
      job_step t TimerFired (u, j) =
        (if a + max 0 d \<le> t then (u, stopRecording (j\<lparr>timers := ts\<rparr>)) else (u, j))"
    by simp
  from seek play ten other fire inv show ?thesis by blast
qed

theorem stop_timer_after_play_witness:
  "sys_jobs (run example_recording_trace (initial example_ui)) ! 0
     \<in> set (sys_jobs (run example_recording_trace (initial example_ui))) \<and>
   timers (sys_jobs (run example_recording_trace (initial example_ui)) ! 0) = [(650, 10000)] \<and>
   c_duration (job_clip (sys_jobs (run example_recording_trace (initial example_ui)) ! 0)) = 10 \<and>
   recorder_started_at (sys_jobs (run example_recording_trace (initial example_ui)) ! 0)
     = Some 150 \<and>
   650 \<le> sys_now (run example_recording_trace (initial example_ui)) \<and>
   pc (sys_jobs (run (take 3 example_recording_trace) (initial example_ui)) ! 0) = AwaitPlay \<and>
   timers (snd (job_step 650 PlayResolved
     (example_ui, sys_jobs (run (take 3 example_recording_trace) (initial example_ui)) ! 0)))
     = [(650, 10000)] \<and>
   job_step 10649 TimerFired
     (example_ui, sys_jobs (run example_recording_trace (initial example_ui)) ! 0)
     = (example_ui, sys_jobs (run example_recording_trace (initial example_ui)) ! 0) \<and>
   job_step 10650 TimerFired
     (example_ui, sys_jobs (run example_recording_trace (initial example_ui)) ! 0)
     = (example_ui,
        stopRecording ((sys_jobs (run example_recording_trace (initial example_ui)) ! 0)
          \<lparr>timers := []\<rparr>))"
proof -
  let ?s = "run example_recording_trace (initial example_ui)"
  let ?K = "sys_jobs (run (take 3 example_recording_trace) (initial example_ui)) ! 0"
  have mem: "sys_jobs ?s ! 0 \<in> set (sys_jobs ?s)"
    by (simp add: example_recording_run)
  have tm: "timers (sys_jobs ?s ! 0) = [(650, 10000)]"
    by (simp add: example_recording_run)
  have st: "recorder_started_at (sys_jobs ?s ! 0) = Some 150"
    by (simp add: example_recording_run)
  have cl: "c_duration (job_clip (sys_jobs ?s ! 0)) = 10"
    by (simp add: example_recording_run new_job_def example_clip_a_def)
  from stop_timer_after_play[of _ _ _ _ _ _ _ example_recording_trace example_ui,
      THEN conjunct2, THEN conjunct2, THEN conjunct2, THEN conjunct2, THEN conjunct2,
      rule_format, OF mem]
  have "\<forall>(a, d)\<in>set (timers (sys_jobs ?s ! 0)). a \<le> sys_now ?s" by auto
  with tm have now: "650 \<le> sys_now ?s" by simp
  have k: "pc ?K = AwaitPlay \<and> c_duration (job_clip ?K) = 10 \<and> timers ?K = []"
    by (simp add: example_await_play new_job_def example_clip_a_def)
  from stop_timer_after_play[of ?K 650 example_ui,
      THEN conjunct2, THEN conjunct2, THEN conjunct1, THEN mp, OF k]
  have armed: "timers (snd (job_step 650 PlayResolved (example_ui, ?K))) = [(650, 10000)]" .
  have tm': "timers (sys_jobs ?s ! 0) = (650, 10000) # []" using tm by simp
  from stop_timer_after_play[of "sys_jobs ?s ! 0" 10649 example_ui _ 650 10000 "[]",
      THEN conjunct2, THEN conjunct2, THEN conjunct2, THEN conjunct2, THEN conjunct1,
      THEN mp, OF tm']
  have early: "job_step 10649 TimerFired (example_ui, sys_jobs ?s ! 0)
      = (example_ui, sys_jobs ?s ! 0)"
    by simp
  from stop_timer_after_play[of "sys_jobs ?s ! 0" 10650 example_ui _ 650 10000 "[]",
      THEN conjunct2, THEN conjunct2, THEN conjunct2, THEN conjunct2, THEN conjunct1,
      THEN mp, OF tm']
  have due: "job_step 10650 TimerFired (example_ui, sys_jobs ?s ! 0)
      = (example_ui, stopRecording ((sys_jobs ?s ! 0)\<lparr>timers := []\<rparr>))"
    by simp
  from mem tm st cl now k armed early due show ?thesis by blast
qed

text \<open>
  The claim as it was stated fails on the example: the recorder starts at 150 ms,
  \<open>play()\<close> resolves 500 ms later, and the timer of the 10 second clip, armed at
  650 ms, is due at 10650 ms, which is 10.5 seconds after recording started.
\<close>

theorem stop_timer_counterexample:
  "recorder_started_at (sys_jobs (run example_recording_trace (initial example_ui)) ! 0)
     = Some 150 \<and>
   c_duration (job_clip (sys_jobs (run example_recording_trace (initial example_ui)) ! 0))
     = 10 \<and>
   timers (sys_jobs (run example_recording_trace (initial example_ui)) ! 0)
     = [(650, 10000)] \<and>
   650 + 10000 \<noteq>
     150 + c_duration (job_clip (sys_jobs (run example_recording_trace (initial example_ui)) ! 0))
             * 1000"
  by (simp add: example_recording_run new_job_def example_clip_a_def)

lemma find_preferredMimeTypes:
  "find P preferredMimeTypes =
     (if P ''video/webm;codecs=vp9'' then Some ''video/webm;codecs=vp9''
      else if P ''video/webm;codecs=vp8'' then Some ''video/webm;codecs=vp8''
      else if P ''video/webm'' then Some ''video/webm''
      else None)"
  by (simp add: preferredMimeTypes_def)

lemma find_Some_member: "find P xs = Some x \<Longrightarrow> x \<in> set xs \<and> P x"
  by (induction xs) (auto split: if_splits)



lemma recorder_needs_lacking:
  assumes rn: "recorder_needs k"
  shows "has_MediaRecorder (job_env k) \<and>
      (\<not> has_captureStream (job_env k) \<or>
       (\<forall>m\<in>set preferredMimeTypes. \<not> isTypeSupported (job_env k) m) \<longrightarrow>
         mimeType k = None \<and> recorder_start_calls k = 0 \<and> recorder_state k = Inactive \<and>
         play_calls k = 0 \<and> chunks k = [] \<and> draw_calls k = [] \<and> timers k = [] \<and>
         downloads k = [])"
proof (rule conjI)
  show "has_MediaRecorder (job_env k)" using rn by (simp add: recorder_needs_def)
next
  show "\<not> has_captureStream (job_env k) \<or>
       (\<forall>m\<in>set preferredMimeTypes. \<not> isTypeSupported (job_env k) m) \<longrightarrow>
         mimeType k = None \<and> recorder_start_calls k = 0 \<and> recorder_state k = Inactive \<and>
         play_calls k = 0 \<and> chunks k = [] \<and> draw_calls k = [] \<and> timers k = [] \<and>
         downloads k = []"
  proof (rule impI)
    assume lack: "\<not> has_captureStream (job_env k) \<or>
       (\<forall>m\<in>set preferredMimeTypes. \<not> isTypeSupported (job_env k) m)"
    have n: "mimeType k = None"
    proof (cases "mimeType k")
      case None
      then show ?thesis .
    next
      case (Some m)
      with rn have "has_captureStream (job_env k)"
        and "find (isTypeSupported (job_env k)) preferredMimeTypes = Some m"
        by (simp_all add: recorder_needs_def)
      with lack find_Some_member[of "isTypeSupported (job_env k)" preferredMimeTypes m]
      show ?thesis by blast
    qed
    with rn show "mimeType k = None \<and> recorder_start_calls k = 0 \<and> recorder_state k = Inactive \<and>
         play_calls k = 0 \<and> chunks k = [] \<and> draw_calls k = [] \<and> timers k = [] \<and>
         downloads k = []"
      by (simp add: recorder_needs_def)
  qed
qed

text \<open>
  Claim C6.  Without \<open>MediaRecorder\<close> the function returns at once with an error
  message and creates no job.  Without \<open>captureStream\<close>, or when none of
  \<open>video/webm;codecs=vp9\<close>, \<open>video/webm;codecs=vp8\<close>, \<open>video/webm\<close> is supported, the
  code that runs when the seek has completed throws: the error message is set, the
  in-flight flag is cleared, and the job returns with no recorder constructed.  In
  every reachable state every job was started where \<open>MediaRecorder\<close> exists, and a
  job whose environment lacks \<open>captureStream\<close> or a supported container has never
  constructed or started a recorder, never called \<open>play()\<close>, holds no chunk, has drawn
  no frame, has armed no timer and has saved no file.  Where the capabilities exist
  the container is the first supported candidate in the order of the list.
\<close>

theorem export_needs_capabilities:
  "(videoUrl u \<noteq> [] \<and> \<not> has_MediaRecorder e \<longrightarrow>
      exportPortraitClip e c u =
        (u\<lparr>errorMessage :=
             Some ''Browser tidak mendukung MediaRecorder untuk ekspor 9:16.''\<rparr>, None)) \<and>
   (\<not> has_MediaRecorder e \<longrightarrow>
      sys_jobs (dispatch (Export e c) s) = sys_jobs s \<and>
      (export_enabled s c \<longrightarrow> errorMessage (sys_ui (dispatch (Export e c) s)) \<noteq> None)) \<and>
   (pc j = AwaitSeeked \<and>
    (\<not> has_captureStream (job_env j) \<or>
     (\<forall>m\<in>set preferredMimeTypes. \<not> isTypeSupported (job_env j) m)) \<longrightarrow>
      (\<exists>j'. job_step t Seeked (u, j) =
          (u\<lparr>errorMessage := Some
             ''Gagal membuat video potrait. Coba lagi di browser lain jika masalah berlanjut.'',
             exportingClipId := None\<rparr>, j') \<and>
        pc j' = Returned \<and> mimeType j' = mimeType j \<and>
        recorder_start_calls j' = recorder_start_calls j \<and>
        recorder_state j' = recorder_state j \<and> play_calls j' = play_calls j \<and>
        chunks j' = chunks j \<and> timers j' = timers j \<and> downloads j' = downloads j)) \<and>
   (\<forall>k\<in>set (sys_jobs (run evs (initial ui))).
      has_MediaRecorder (job_env k) \<and>
      (\<not> has_captureStream (job_env k) \<or>
       (\<forall>m\<in>set preferredMimeTypes. \<not> isTypeSupported (job_env k) m) \<longrightarrow>
         mimeType k = None \<and> recorder_start_calls k = 0 \<and> recorder_state k = Inactive \<and>
         play_calls k = 0 \<and> chunks k = [] \<and> draw_calls k = [] \<and> timers k = [] \<and>
         downloads k = [])) \<and>
   (pc j = AwaitSeeked \<and> has_captureStream (job_env j) \<and> has_context2d (job_env j) \<longrightarrow>
      mimeType (snd (job_step t Seeked (u, j))) =
        (if isTypeSupported (job_env j) ''video/webm;codecs=vp9''
           then Some ''video/webm;codecs=vp9''
         else if isTypeSupported (job_env j) ''video/webm;codecs=vp8''
           then Some ''video/webm;codecs=vp8''
         else if isTypeSupported (job_env j) ''video/webm'' then Some ''video/webm''
         else mimeType j))"
proof -
  have early: "videoUrl u \<noteq> [] \<and> \<not> has_MediaRecorder e \<longrightarrow>
      exportPortraitClip e c u =
        (u\<lparr>errorMessage :=
             Some ''Browser tidak mendukung MediaRecorder untuk ekspor 9:16.''\<rparr>, None)"
    by (simp add: exportPortraitClip_def)
  have nojob: "\<not> has_MediaRecorder e \<longrightarrow>
      sys_jobs (dispatch (Export e c) s) = sys_jobs s \<and>
      (export_enabled s c \<longrightarrow> errorMessage (sys_ui (dispatch (Export e c) s)) \<noteq> None)"
    by (simp add: exportPortraitClip_def)
  have seek: "pc j = AwaitSeeked \<and>
    (\<not> has_captureStream (job_env j) \<or>
     (\<forall>m\<in>set preferredMimeTypes. \<not> isTypeSupported (job_env j) m)) \<longrightarrow>
      (\<exists>j'. job_step t Seeked (u, j) =
          (u\<lparr>errorMessage := Some
             ''Gagal membuat video potrait. Coba lagi di browser lain jika masalah berlanjut.'',
             exportingClipId := None\<rparr>, j') \<and>
        pc j' = Returned \<and> mimeType j' = mimeType j \<and>
        recorder_start_calls j' = recorder_start_calls j \<and>
        recorder_state j' = recorder_state j \<and> play_calls j' = play_calls j \<and>
        chunks j' = chunks j \<and> timers j' = timers j \<and> downloads j' = downloads j)"
    by (auto simp: after_seeked_def export_throw_def find_preferredMimeTypes
        preferredMimeTypes_def Let_def)
  have "\<forall>k\<in>set (sys_jobs (run evs (initial ui))). recorder_needs k"
    by (rule run_jobs_invariant[where P = "\<lambda>t. recorder_needs"])
      (simp_all add: recorder_needs_new recorder_needs_step initial_def)
  then have inv: "\<forall>k\<in>set (sys_jobs (run evs (initial ui))).
      has_MediaRecorder (job_env k) \<and>
      (\<not> has_captureStream (job_env k) \<or>
       (\<forall>m\<in>set preferredMimeTypes. \<not> isTypeSupported (job_env k) m) \<longrightarrow>
         mimeType k = None \<and> recorder_start_calls k = 0 \<and> recorder_state k = Inactive \<and>
         play_calls k = 0 \<and> chunks k = [] \<and> draw_calls k = [] \<and> timers k = [] \<and>
         downloads k = [])"
    using recorder_needs_lacking by blast
  have probe: "pc j = AwaitSeeked \<and> has_captureStream (job_env j) \<and> has_context2d (job_env j) \<longrightarrow>
      mimeType (snd (job_step t Seeked (u, j))) =
        (if isTypeSupported (job_env j) ''video/webm;codecs=vp9''
           then Some ''video/webm;codecs=vp9''
         else if isTypeSupported (job_env j) ''video/webm;codecs=vp8''
           then Some ''video/webm;codecs=vp8''
         else if isTypeSupported (job_env j) ''video/webm'' then Some ''video/webm''
         else mimeType j)"
    by (simp add: after_seeked_def export_throw_def find_preferredMimeTypes Let_def)
  from early nojob seek inv probe show ?thesis by blast
qed


lemma example_no_captureStream_run:
  "run [(0, Export (example_environment\<lparr>has_captureStream := False\<rparr>) example_clip_a),
        (100, JobEvent 0 LoadedMetadata), (50, JobEvent 0 Seeked),
        (5, JobEvent 0 (DataAvailable 4)), (5, JobEvent 0 RecorderStop)]
      (initial example_ui) =
   \<lparr>sys_ui = example_ui\<lparr>errorMessage := Some
        ''Gagal membuat video potrait. Coba lagi di browser lain jika masalah berlanjut.''\<rparr>,
    sys_jobs = [(new_job (example_environment\<lparr>has_captureStream := False\<rparr>) example_clip_a)
                 \<lparr>pc := Returned\<rparr>],
    sys_now = 160, view_open = True\<rparr>"
  by (simp add: run_defs example_defs)

theorem export_needs_capabilities_witness:
  "(videoUrl example_ui \<noteq> [] \<and>
    \<not> has_MediaRecorder (example_environment\<lparr>has_MediaRecorder := False\<rparr>)) \<and>
   exportPortraitClip (example_environment\<lparr>has_MediaRecorder := False\<rparr>) example_clip_a
      example_ui =
     (example_ui\<lparr>errorMessage :=
        Some ''Browser tidak mendukung MediaRecorder untuk ekspor 9:16.''\<rparr>, None) \<and>
   sys_jobs (dispatch (Export (example_environment\<lparr>has_MediaRecorder := False\<rparr>)
       example_clip_a) (initial example_ui)) = [] \<and>
   (new_job (example_environment\<lparr>has_captureStream := False\<rparr>) example_clip_a)
       \<lparr>pc := Returned\<rparr>
     \<in> set (sys_jobs (run
        [(0, Export (example_environment\<lparr>has_captureStream := False\<rparr>) example_clip_a),
         (100, JobEvent 0 LoadedMetadata), (50, JobEvent 0 Seeked),
         (5, JobEvent 0 (DataAvailable 4)), (5, JobEvent 0 RecorderStop)]
        (initial example_ui))) \<and>
   \<not> has_captureStream (job_env
       ((new_job (example_environment\<lparr>has_captureStream := False\<rparr>) example_clip_a)
          \<lparr>pc := Returned\<rparr>)) \<and>
   recorder_start_calls
       ((new_job (example_environment\<lparr>has_captureStream := False\<rparr>) example_clip_a)
          \<lparr>pc := Returned\<rparr>) = 0 \<and>
   find (isTypeSupported (example_environment\<lparr>isTypeSupported := (\<lambda>m. False)\<rparr>))
     preferredMimeTypes = None \<and>
   (\<exists>j'. job_step 150 Seeked
        (example_ui\<lparr>exportingClipId := Some ''a''\<rparr>,
         (new_job (example_environment\<lparr>isTypeSupported := (\<lambda>m. False)\<rparr>) example_clip_a)
           \<lparr>pc := AwaitSeeked\<rparr>) =
        (example_ui\<lparr>errorMessage := Some
           ''Gagal membuat video potrait. Coba lagi di browser lain jika masalah berlanjut.''\<rparr>,
         j') \<and>
      pc j' = Returned \<and> mimeType j' = None \<and> recorder_start_calls j' = 0) \<and>
   mimeType (snd (job_step 150 Seeked
        (example_ui,
         (new_job example_environment example_clip_a)\<lparr>pc := AwaitSeeked\<rparr>)))
     = Some ''video/webm''"
proof -
  let ?e = "example_environment\<lparr>has_MediaRecorder := False\<rparr>"
  let ?k = "(new_job (example_environment\<lparr>has_captureStream := False\<rparr>) example_clip_a)
       \<lparr>pc := Returned\<rparr>"
  let ?tr = "[(0, Export (example_environment\<lparr>has_captureStream := False\<rparr>) example_clip_a),
         (100, JobEvent 0 LoadedMetadata), (50, JobEvent 0 Seeked),
         (5, JobEvent 0 (DataAvailable 4)), (5, JobEvent 0 RecorderStop)]"
  let ?n = "(new_job (example_environment\<lparr>isTypeSupported := (\<lambda>m. False)\<rparr>) example_clip_a)
           \<lparr>pc := AwaitSeeked\<rparr>"
  let ?g = "(new_job example_environment example_clip_a)\<lparr>pc := AwaitSeeked\<rparr>"
  have h: "videoUrl example_ui \<noteq> [] \<and> \<not> has_MediaRecorder ?e"
    by (simp add: example_defs)
  have mem: "?k \<in> set (sys_jobs (run ?tr (initial example_ui)))"
    by (simp add: example_no_captureStream_run)
  have lack: "\<not> has_captureStream (job_env ?k)"
    by (simp add: new_job_def)
  note T = export_needs_capabilities[of example_ui ?e example_clip_a "initial example_ui"
      ?k 0 ?tr example_ui]
  from T[THEN conjunct1, rule_format, OF h]
  have a: "exportPortraitClip ?e example_clip_a example_ui =
     (example_ui\<lparr>errorMessage :=
        Some ''Browser tidak mendukung MediaRecorder untuk ekspor 9:16.''\<rparr>, None)" .
  from h T[THEN conjunct2, THEN conjunct1]
  have a': "sys_jobs (dispatch (Export ?e example_clip_a) (initial example_ui)) = []"
    by (simp add: initial_def)
  from T[THEN conjunct2, THEN conjunct2, THEN conjunct2, THEN conjunct1, rule_format, OF mem]
    lack
  have b: "recorder_start_calls ?k = 0" by blast
  have none: "\<forall>m\<in>set preferredMimeTypes.
       \<not> isTypeSupported (example_environment\<lparr>isTypeSupported := (\<lambda>m. False)\<rparr>) m"
    by simp
  then have nh: "pc ?n = AwaitSeeked \<and>
    (\<not> has_captureStream (job_env ?n) \<or>
     (\<forall>m\<in>set preferredMimeTypes. \<not> isTypeSupported (job_env ?n) m))"
    by (simp add: new_job_def)
  from export_needs_capabilities[of "example_ui\<lparr>exportingClipId := Some ''a''\<rparr>" _ _ _ ?n 150,
      THEN conjunct2, THEN conjunct2, THEN conjunct1, THEN mp, OF nh]
  obtain j' where j':
    "job_step 150 Seeked (example_ui\<lparr>exportingClipId := Some ''a''\<rparr>, ?n) =
       (example_ui\<lparr>exportingClipId := Some ''a''\<rparr>
          \<lparr>errorMessage := Some
             ''Gagal membuat video potrait. Coba lagi di browser lain jika masalah berlanjut.'',
           exportingClipId := None\<rparr>, j')"
    "pc j' = Returned" "mimeType j' = mimeType ?n"
    "recorder_start_calls j' = recorder_start_calls ?n"
    by blast
  have "job_step 150 Seeked (example_ui\<lparr>exportingClipId := Some ''a''\<rparr>, ?n) =
        (example_ui\<lparr>errorMessage := Some
           ''Gagal membuat video potrait. Coba lagi di browser lain jika masalah berlanjut.''\<rparr>,
         j') \<and>
      pc j' = Returned \<and> mimeType j' = None \<and> recorder_start_calls j' = 0"
    using j' by (simp add: new_job_def example_ui_def)
  then have c: "\<exists>j'. job_step 150 Seeked (example_ui\<lparr>exportingClipId := Some ''a''\<rparr>, ?n) =
        (example_ui\<lparr>errorMessage := Some
           ''Gagal membuat video potrait. Coba lagi di browser lain jika masalah berlanjut.''\<rparr>,
         j') \<and>
      pc j' = Returned \<and> mimeType j' = None \<and> recorder_start_calls j' = 0"
    by (rule exI)
  have gh: "pc ?g = AwaitSeeked \<and> has_captureStream (job_env ?g) \<and> has_context2d (job_env ?g)"
    by (simp add: new_job_def example_environment_def)
  from export_needs_capabilities[of example_ui _ _ _ ?g 150,
      THEN conjunct2, THEN conjunct2, THEN conjunct2, THEN conjunct2, THEN mp, OF gh]
  have d: "mimeType (snd (job_step 150 Seeked (example_ui, ?g))) = Some ''video/webm''"
    by (simp add: new_job_def example_environment_def)
  have none': "find (isTypeSupported (example_environment\<lparr>isTypeSupported := (\<lambda>m. False)\<rparr>))
     preferredMimeTypes = None"
    by (simp add: find_preferredMimeTypes)
  from h a a' mem lack b none' c d show ?thesis by blast
qed

lemma example_second_export_run:
  "run example_second_export_trace (initial example_ui) =
     \<lparr>sys_ui = example_ui\<lparr>exportingClipId := Some ''a''\<rparr>,
      sys_jobs =
        [(new_job example_environment example_clip_a)
           \<lparr>pc := AwaitRecording, composedTracks := [0, 2], sourceTracks := [1, 2],
            mimeType := Some ''video/webm'', recorder_state := Recording,
            recorder_start_calls := 1, recorder_started_at := Some 170, play_calls := 1,
            timers := [(190, 10000)], raf_pending := True\<rparr>,
         new_job example_environment example_clip_b,
         (new_job example_environment example_clip_a)
           \<lparr>pc := AwaitRecording, composedTracks := [0, 2], sourceTracks := [1, 2],
            mimeType := Some ''video/webm'', recorder_state := Recording,
            recorder_start_calls := 1, recorder_started_at := Some 340, play_calls := 1,
            timers := [(360, 10000)], raf_pending := True\<rparr>],
      sys_now = 360, view_open = True\<rparr>"
  by (simp add: run_defs example_defs)

text \<open>
  Claim C8, amended.  While \<open>exportingClipId\<close> equals the id of a clip, the export
  button of that clip is disabled and a click on it changes nothing; in particular a
  second click right after an accepted one is rejected.  The gate is this one flag:
  whether the button is enabled does not depend on the jobs in flight, an accepted
  click always starts a new job, and the flag is overwritten by the export of any
  other clip and cleared when any job ends.  After the export of another clip has
  been started the button of the first clip is enabled again, while its job is still
  in flight.
\<close>

theorem export_button_gate:
  "(exportingClipId (sys_ui s) = Some (c_id c) \<longrightarrow> dispatch (Export e c) s = s) \<and>
   (export_enabled s c \<and> videoUrl (sys_ui s) \<noteq> [] \<and> has_MediaRecorder e \<longrightarrow>
      dispatch (Export e c) s =
        s\<lparr>sys_ui := (sys_ui s)\<lparr>errorMessage := None, exportingClipId := Some (c_id c)\<rparr>,
          sys_jobs := sys_jobs s @ [new_job e c]\<rparr> \<and>
      dispatch (Export e' c) (dispatch (Export e c) s) = dispatch (Export e c) s) \<and>
   (export_enabled (s\<lparr>sys_jobs := js\<rparr>) c \<longleftrightarrow> export_enabled s c) \<and>
   (export_enabled s c \<and> c_id c' \<noteq> c_id c \<and> c' \<in> set (generatedClips (sys_ui s)) \<and>
    videoUrl (sys_ui s) \<noteq> [] \<and> has_MediaRecorder e \<and> has_MediaRecorder e' \<longrightarrow>
      export_enabled (dispatch (Export e' c') (dispatch (Export e c) s)) c) \<and>
   exportingClipId (fst (export_throw (u, j))) = None \<and>
   exportingClipId (fst (after_recording b (u, j))) = None"
  by (auto simp: export_enabled_def exportPortraitClip_def export_throw_def
      after_recording_def Let_def)

theorem export_button_gate_witness:
  "exportingClipId (sys_ui (run example_second_export_trace (initial example_ui)))
     = Some (c_id example_clip_a) \<and>
   dispatch (Export example_environment example_clip_a)
     (run example_second_export_trace (initial example_ui))
     = run example_second_export_trace (initial example_ui) \<and>
   export_enabled (initial example_ui) example_clip_a \<and>
   sys_jobs (dispatch (Export example_environment example_clip_a) (initial example_ui))
     = [new_job example_environment example_clip_a] \<and>
   export_enabled
     (dispatch (Export example_environment example_clip_b)
        (dispatch (Export example_environment example_clip_a) (initial example_ui)))
     example_clip_a"
proof -
  have h: "exportingClipId (sys_ui (run example_second_export_trace (initial example_ui)))
     = Some (c_id example_clip_a)"
    by (simp add: example_second_export_run example_clip_a_def)
  have en: "export_enabled (initial example_ui) example_clip_a"
    by (simp add: export_enabled_def initial_def example_ui_def)
  have g: "export_enabled (initial example_ui) example_clip_a \<and>
      videoUrl (sys_ui (initial example_ui)) \<noteq> [] \<and> has_MediaRecorder example_environment"
    using en by (simp add: initial_def example_ui_def example_environment_def)
  have g': "export_enabled (initial example_ui) example_clip_a \<and>
      c_id example_clip_b \<noteq> c_id example_clip_a \<and>
      example_clip_b \<in> set (generatedClips (sys_ui (initial example_ui))) \<and>
      videoUrl (sys_ui (initial example_ui)) \<noteq> [] \<and>
      has_MediaRecorder example_environment \<and> has_MediaRecorder example_environment"
    using en
    by (simp add: initial_def example_ui_def example_environment_def example_clip_a_def
        example_clip_b_def)
  note T = export_button_gate[of _ example_clip_a example_environment _ _ example_clip_b]
  from T[THEN conjunct1, rule_format, OF h]
  have a: "dispatch (Export example_environment example_clip_a)
     (run example_second_export_trace (initial example_ui))
     = run example_second_export_trace (initial example_ui)" .
  from T[where s = "initial example_ui", THEN conjunct2, THEN conjunct1, rule_format, OF g]
  have b: "sys_jobs (dispatch (Export example_environment example_clip_a) (initial example_ui))
     = [new_job example_environment example_clip_a]"
    by (simp add: initial_def)
  from T[where s = "initial example_ui" and e' = example_environment,
      THEN conjunct2, THEN conjunct2, THEN conjunct2, THEN conjunct1, rule_format, OF g']
  have c: "export_enabled
     (dispatch (Export example_environment example_clip_b)
        (dispatch (Export example_environment example_clip_a) (initial example_ui)))
     example_clip_a" .
  from h a en b c show ?thesis by blast
qed

text \<open>
  The claim as it was stated fails on the example: after clicks on the first clip,
  the second clip and the first clip again, the first and the third job both belong
  to the first clip, and both are recording, each with its draw loop running.
\<close>

theorem concurrent_export_counterexample:
  "job_clip (sys_jobs (run example_second_export_trace (initial example_ui)) ! 0)
     = example_clip_a \<and>
   job_clip (sys_jobs (run example_second_export_trace (initial example_ui)) ! 2)
     = example_clip_a \<and>
   pc (sys_jobs (run example_second_export_trace (initial example_ui)) ! 0) = AwaitRecording \<and>
   pc (sys_jobs (run example_second_export_trace (initial example_ui)) ! 2) = AwaitRecording \<and>
   recorder_state (sys_jobs (run example_second_export_trace (initial example_ui)) ! 0)
     = Recording \<and>
   recorder_state (sys_jobs (run example_second_export_trace (initial example_ui)) ! 2)
     = Recording \<and>
   raf_pending (sys_jobs (run example_second_export_trace (initial example_ui)) ! 0) \<and>
   raf_pending (sys_jobs (run example_second_export_trace (initial example_ui)) ! 2)"
  by (simp add: example_second_export_run new_job_def)

lemma dispatch_closed:
  assumes "\<forall>e c. ev \<noteq> Export e c"
  shows "dispatch ev (s\<lparr>view_open := False\<rparr>) = (dispatch ev s)\<lparr>view_open := False\<rparr>"
  using assms by (cases ev) (auto split: prod.splits)

lemma run_closed:
  assumes "\<forall>d e c. (d, Export e c) \<notin> set evs"
  shows "run evs (s\<lparr>view_open := False\<rparr>) = (run evs s)\<lparr>view_open := False\<rparr>"
  using assms
proof (induction evs arbitrary: s)
  case Nil
  show ?case by (simp add: run_Nil)
next
  case (Cons a evs)
  obtain d ev where a: "a = (d, ev)" by (cases a)
  with Cons.prems have ne: "\<forall>e c. ev \<noteq> Export e c" by auto
  have eq: "(s\<lparr>view_open := False\<rparr>)\<lparr>sys_now := sys_now s + of_nat d\<rparr> =
      (s\<lparr>sys_now := sys_now s + of_nat d\<rparr>)\<lparr>view_open := False\<rparr>"
    by simp
  have "step a (s\<lparr>view_open := False\<rparr>) =
      dispatch ev ((s\<lparr>view_open := False\<rparr>)\<lparr>sys_now := sys_now s + of_nat d\<rparr>)"
    by (simp add: step_def a)
  also have "\<dots> =
      dispatch ev ((s\<lparr>sys_now := sys_now s + of_nat d\<rparr>)\<lparr>view_open := False\<rparr>)"
    using eq by (rule arg_cong)
  also have "\<dots> = (dispatch ev (s\<lparr>sys_now := sys_now s + of_nat d\<rparr>))\<lparr>view_open := False\<rparr>"
    by (rule dispatch_closed[OF ne])
  also have "\<dots> = (step a s)\<lparr>view_open := False\<rparr>"
    by (simp add: step_def a)
  finally have "step a (s\<lparr>view_open := False\<rparr>) = (step a s)\<lparr>view_open := False\<rparr>" .
  moreover from Cons.prems have "\<forall>d e c. (d, Export e c) \<notin> set evs" by simp
  ultimately show ?case
    using Cons.IH[of "step a s"] by (simp add: run_Cons)
qed

text \<open>
  Claim C9, amended.  Closing the view does not cancel an export.  The close
  handler changes no job and no state of the component: it stops no track, leaves
  the recorder running and the stop timer pending.  Whatever job events follow, the
  run after closing differs from the run in which the view stays open only in that
  the view is closed.  So for a job that is recording, the pending timer fires when
  it is due and runs the stop path (it stops every track of both streams, pauses
  the source and stops the recorder), and when the recorder's stop event arrives
  the recorded chunks are saved as a file.
\<close>

theorem close_does_not_cancel:
  "sys_jobs (step (dt, Close) s) = sys_jobs s \<and>
   sys_ui (step (dt, Close) s) = sys_ui s \<and>
   ((\<forall>d e c. (d, Export e c) \<notin> set evs) \<longrightarrow>
      run evs (step (dt, Close) s) =
        (run evs (s\<lparr>sys_now := sys_now s + of_nat dt\<rparr>))\<lparr>view_open := False\<rparr>) \<and>
   (pc j = AwaitRecording \<and> \<not> recordingStopped j \<and> recordingPromise j = Pending \<and>
    mimeType j = Some m \<and> timers j = [(a, d)] \<and> a + max 0 d \<le> t \<longrightarrow>
      (\<exists>j1. job_step t TimerFired (u, j) = (u, j1) \<and>
         timers j1 = [] \<and> recordingStopped j1 \<and> recorder_state j1 = Inactive \<and>
         track_stop_calls j1 = track_stop_calls j @ composedTracks j @ sourceTracks j \<and>
         (\<exists>j2. job_step t' RecorderStop (u, j1) = (u\<lparr>exportingClipId := None\<rparr>, j2) \<and>
            downloads j2 = downloads j @ [\<lparr>blob_parts = chunks j, blob_type = m\<rparr>] \<and>
            pc j2 = Returned)))"
proof -
  have a: "sys_jobs (step (dt, Close) s) = sys_jobs s \<and>
      sys_ui (step (dt, Close) s) = sys_ui s"
    by (simp add: step_def)
  have b: "(\<forall>d e c. (d, Export e c) \<notin> set evs) \<longrightarrow>
      run evs (step (dt, Close) s) =
        (run evs (s\<lparr>sys_now := sys_now s + of_nat dt\<rparr>))\<lparr>view_open := False\<rparr>"
    using run_closed[of evs "s\<lparr>sys_now := sys_now s + of_nat dt\<rparr>"]
    by (simp add: step_def)
  have c: "pc j = AwaitRecording \<and> \<not> recordingStopped j \<and> recordingPromise j = Pending \<and>
    mimeType j = Some m \<and> timers j = [(a, d)] \<and> a + max 0 d \<le> t \<longrightarrow>
      (\<exists>j1. job_step t TimerFired (u, j) = (u, j1) \<and>
         timers j1 = [] \<and> recordingStopped j1 \<and> recorder_state j1 = Inactive \<and>
         track_stop_calls j1 = track_stop_calls j @ composedTracks j @ sourceTracks j \<and>
         (\<exists>j2. job_step t' RecorderStop (u, j1) = (u\<lparr>exportingClipId := None\<rparr>, j2) \<and>
            downloads j2 = downloads j @ [\<lparr>blob_parts = chunks j, blob_type = m\<rparr>] \<and>
            pc j2 = Returned))"
    by (simp add: stopRecording_def after_recording_def Let_def)
  from a b c show ?thesis by blast
qed

lemma example_closed_run:
  "run (example_recording_trace @ [(1000, Close)]) (initial example_ui) =
     \<lparr>sys_ui = example_ui\<lparr>exportingClipId := Some ''a''\<rparr>,
      sys_jobs =
        [(new_job example_environment example_clip_a)
           \<lparr>pc := AwaitRecording, composedTracks := [0, 2], sourceTracks := [1, 2],
            mimeType := Some ''video/webm'', recorder_state := Recording,
            recorder_start_calls := 1, recorder_started_at := Some 150, play_calls := 1,
            timers := [(650, 10000)], raf_pending := True\<rparr>],
      sys_now = 1650, view_open = False\<rparr>"
  by (simp add: run_append example_recording_run) (simp add: run_defs)

lemma example_closed_finished_run:
  "sys_jobs (run (example_recording_trace @
       [(1000, Close), (9000, JobEvent 0 TimerFired), (5, JobEvent 0 (DataAvailable 9)),
        (2, JobEvent 0 RecorderStop)]) (initial example_ui)) =
     [(new_job example_environment example_clip_a)
        \<lparr>pc := Returned, composedTracks := [0, 2], sourceTracks := [1, 2],
         mimeType := Some ''video/webm'', recorder_state := Inactive,
         recorder_start_calls := 1, recorder_stop_calls := 1,
         recorder_started_at := Some 150, play_calls := 1, pause_calls := 1,
         track_stop_calls := [0, 2, 1, 2], chunks := [9], recordingStopped := True,
         recordingPromise := Resolved \<lparr>blob_parts = [9], blob_type = ''video/webm''\<rparr>,
         timers := [], raf_pending := True,
         downloads := [\<lparr>blob_parts = [9], blob_type = ''video/webm''\<rparr>]\<rparr>]"
  by (simp add: run_append example_recording_run) (simp add: run_defs new_job_def)

theorem close_does_not_cancel_witness:
  "(\<forall>d e c. (d, Export e c) \<notin> set [(9000 :: nat, JobEvent 0 TimerFired),
        (5, JobEvent 0 (DataAvailable 9)), (2, JobEvent 0 RecorderStop)]) \<and>
   sys_jobs (run [(9000, JobEvent 0 TimerFired), (5, JobEvent 0 (DataAvailable 9)),
        (2, JobEvent 0 RecorderStop)]
      (step (1000, Close) (run example_recording_trace (initial example_ui)))) =
   sys_jobs (run [(9000, JobEvent 0 TimerFired), (5, JobEvent 0 (DataAvailable 9)),
        (2, JobEvent 0 RecorderStop)]
      ((run example_recording_trace (initial example_ui))
         \<lparr>sys_now := sys_now (run example_recording_trace (initial example_ui)) + of_nat 1000\<rparr>)) \<and>
   (pc (sys_jobs (run example_recording_trace (initial example_ui)) ! 0) = AwaitRecording \<and>
    \<not> recordingStopped (sys_jobs (run example_recording_trace (initial example_ui)) ! 0) \<and>
    recordingPromise (sys_jobs (run example_recording_trace (initial example_ui)) ! 0)
      = Pending \<and>
    mimeType (sys_jobs (run example_recording_trace (initial example_ui)) ! 0)
      = Some ''video/webm'' \<and>
    timers (sys_jobs (run example_recording_trace (initial example_ui)) ! 0)
      = [(650, 10000)] \<and>
    650 + max 0 10000 \<le> (10650 :: rat)) \<and>
   (\<exists>j1 j2.
      job_step 10650 TimerFired
        (example_ui, sys_jobs (run example_recording_trace (initial example_ui)) ! 0)
        = (example_ui, j1) \<and>
      job_step 10655 RecorderStop (example_ui, j1)
        = (example_ui\<lparr>exportingClipId := None\<rparr>, j2) \<and>
      downloads j2 = [\<lparr>blob_parts = [], blob_type = ''video/webm''\<rparr>] \<and>
      track_stop_calls j1 = [0, 2, 1, 2])"
proof -
  let ?J = "sys_jobs (run example_recording_trace (initial example_ui)) ! 0"
  have h: "\<forall>d e c. (d, Export e c) \<notin> set [(9000 :: nat, JobEvent 0 TimerFired),
        (5, JobEvent 0 (DataAvailable 9)), (2, JobEvent 0 RecorderStop)]"
    by simp
  from close_does_not_cancel[THEN conjunct2, THEN conjunct2, THEN conjunct1, THEN mp, OF h]
  have "run [(9000, JobEvent 0 TimerFired), (5, JobEvent 0 (DataAvailable 9)),
        (2, JobEvent 0 RecorderStop)]
      (step (1000, Close) (run example_recording_trace (initial example_ui))) =
     (run [(9000, JobEvent 0 TimerFired), (5, JobEvent 0 (DataAvailable 9)),
        (2, JobEvent 0 RecorderStop)]
      ((run example_recording_trace (initial example_ui))
         \<lparr>sys_now := sys_now (run example_recording_trace (initial example_ui)) + of_nat 1000\<rparr>))
      \<lparr>view_open := False\<rparr>" .
  then have a: "sys_jobs (run [(9000, JobEvent 0 TimerFired), (5, JobEvent 0 (DataAvailable 9)),
        (2, JobEvent 0 RecorderStop)]
      (step (1000, Close) (run example_recording_trace (initial example_ui)))) =
   sys_jobs (run [(9000, JobEvent 0 TimerFired), (5, JobEvent 0 (DataAvailable 9)),
        (2, JobEvent 0 RecorderStop)]
      ((run example_recording_trace (initial example_ui))
         \<lparr>sys_now := sys_now (run example_recording_trace (initial example_ui)) + of_nat 1000\<rparr>))"
    by simp
  have g: "pc ?J = AwaitRecording \<and> \<not> recordingStopped ?J \<and> recordingPromise ?J = Pending \<and>
    mimeType ?J = Some ''video/webm'' \<and> timers ?J = [(650, 10000)] \<and>
    650 + max 0 10000 \<le> (10650 :: rat)"
    by (simp add: example_recording_run new_job_def)
  from close_does_not_cancel[of _ _ _ ?J "''video/webm''" 650 10000 10650 example_ui 10655,
      THEN conjunct2, THEN conjunct2, THEN conjunct2, THEN mp, OF g]
  obtain j1 j2 where
    "job_step 10650 TimerFired (example_ui, ?J) = (example_ui, j1)"
    "track_stop_calls j1 = track_stop_calls ?J @ composedTracks ?J @ sourceTracks ?J"
    "job_step 10655 RecorderStop (example_ui, j1) = (example_ui\<lparr>exportingClipId := None\<rparr>, j2)"
    "downloads j2 = downloads ?J @ [\<lparr>blob_parts = chunks ?J, blob_type = ''video/webm''\<rparr>]"
    by blast
  then have b: "\<exists>j1 j2.
      job_step 10650 TimerFired (example_ui, ?J) = (example_ui, j1) \<and>
      job_step 10655 RecorderStop (example_ui, j1)
        = (example_ui\<lparr>exportingClipId := None\<rparr>, j2) \<and>
      downloads j2 = [\<lparr>blob_parts = [], blob_type = ''video/webm''\<rparr>] \<and>
      track_stop_calls j1 = [0, 2, 1, 2]"
    by (simp add: example_recording_run new_job_def)
  from h a g b show ?thesis by blast
qed

text \<open>
  The claim as it was stated fails on the example: one second after \<open>play()\<close> has
  resolved the view is closed; no track has been stopped, the recorder is still
  recording and the timer is still pending; the timer fires nine seconds later, and
  the job saves a file.
\<close>

theorem close_counterexample:
  "\<not> view_open (run (example_recording_trace @ [(1000, Close)]) (initial example_ui)) \<and>
   track_stop_calls (sys_jobs (run (example_recording_trace @ [(1000, Close)])
     (initial example_ui)) ! 0) = [] \<and>
   recorder_state (sys_jobs (run (example_recording_trace @ [(1000, Close)])
     (initial example_ui)) ! 0) = Recording \<and>
   timers (sys_jobs (run (example_recording_trace @ [(1000, Close)])
     (initial example_ui)) ! 0) = [(650, 10000)] \<and>
   downloads (sys_jobs (run (example_recording_trace @
       [(1000, Close), (9000, JobEvent 0 TimerFired), (5, JobEvent 0 (DataAvailable 9)),
        (2, JobEvent 0 RecorderStop)]) (initial example_ui)) ! 0) =
     [\<lparr>blob_parts = [9], blob_type = ''video/webm''\<rparr>]"
  by (simp add: example_closed_run example_closed_finished_run new_job_def)

end
